theory Spec2Isabelle
  imports Main "HOL-Library.Word"
begin

section \<open>The tunnel lifecycle manager (skills/subcode-tunnel/scripts/tunnel.sh)\<close>

text \<open>
  The script runs under \<^verbatim>\<open>set -euo pipefail\<close>.  Every shell variable is a string; the
  files of \<^verbatim>\<open>$STATE_DIR\<close> are texts named relative to that directory; the backend binaries
  (tailscale, cloudflared, ss, lsof, pgrep, jq) are external, so what they answer is read
  from an environment record, one field per command the script consults.  The effect of
  jq on the texts the launchers write, and that of the one yq filter on a configuration,
  are written out.
\<close>

subsection \<open>Errors\<close>

text \<open>
  One constructor per \<^verbatim>\<open>error ...; return 1\<close> (or \<^verbatim>\<open>exit 1\<close>) of the script, named after its
  message, and \<^verbatim>\<open>Errexit\<close> for an unguarded command that fails under \<^verbatim>\<open>set -e\<close>.
\<close>

datatype error =
    No_port_available
  | No_tailscale_hostname
  | Funnel_failed
  | No_tunnel_url
  | Domain_required
  | Tunnel_create_failed
  | Tunnel_id_not_found
  | Credentials_not_found
  | Tunnel_process_died
  | Unknown_method string
  | Usage
  | Errexit string

subsection \<open>The environment: variables and the answers of external commands\<close>

type_synonym port = "64 word"

record env =
  TUNNEL_MACHINE_NAME :: string
  CLOUDFLARE_TUNNEL_DOMAIN :: string
  CLOUDFLARE_TUNNEL_NAME :: string
  HOME :: string
  has_tailscale :: bool
  has_cloudflared :: bool
  has_yq :: bool
  has_jq :: bool
  jq_beyond :: "string \<Rightarrow> string \<Rightarrow> string option"
  jq_report :: "string option"
  ts_self_hostname :: string
  ts_self_dnsname :: string
  ts_backend_state :: string
  cloudflared_list_ok :: bool
  os_hostname :: "string option"
  funnel_bg_ok :: "string \<Rightarrow> string \<Rightarrow> bool"
  funnel_off_ok :: "string \<Rightarrow> bool"
  funnel_reset_ok :: bool
  pkill_ok :: bool
  grep_url :: "nat \<Rightarrow> string"
  proc_log :: string
  tunnel_listed :: "string \<Rightarrow> bool"
  tunnel_create_ok :: "string \<Rightarrow> bool"
  tunnel_id_of :: "string \<Rightarrow> string"
  route_dns_ok :: "string \<Rightarrow> string \<Rightarrow> bool"
  creds_present :: "string \<Rightarrow> bool"
  pgrep_run :: "string \<Rightarrow> nat list"
  alive_after_settle :: bool
  ss_listening :: "port \<Rightarrow> bool"
  lsof_open :: "port \<Rightarrow> bool"
  ss_listening_on :: "string \<Rightarrow> bool"

subsection \<open>Port Allocator: \<^verbatim>\<open>find_available_port\<close> (lines 131-147)\<close>

text \<open>
  Shell arithmetic is 64-bit and signed, so a port is a \<^typ>\<open>64 word\<close>: \<^verbatim>\<open>$((port + 1))\<close>
  wraps and \<^verbatim>\<open>-lt\<close> compares signed values.  \<^const>\<open>ss_listening\<close> is the exit status of
  \<^verbatim>\<open>ss -tlnp | grep -q ":$port "\<close>, \<^const>\<open>lsof_open\<close> that of \<^verbatim>\<open>lsof -i ":$port"\<close>.
  \<^verbatim>\<open>Inr p\<close>: the port is echoed and the status is 0.  \<^verbatim>\<open>Inl\<close>: the message goes to stderr,
  nothing is echoed and the status is 1.
\<close>

function scan_ports :: "env \<Rightarrow> port \<Rightarrow> port \<Rightarrow> error + port" where
  "scan_ports e port max_port =
     (if sint port < sint max_port then
        (if \<not> ss_listening e port \<and> \<not> lsof_open e port then Inr port
         else scan_ports e (port + 1) max_port)
      else Inl No_port_available)"
  by pat_completeness auto
termination
proof (relation "measure (\<lambda>(e, port, max_port). nat (sint max_port - sint port))")
  show "wf (measure (\<lambda>(e, port, max_port). nat (sint max_port - sint port)))"
    by simp
next
  fix e :: "'a env_scheme" and port max_port :: port
  assume lt: "sint port < sint max_port"
  have "sint max_port < 2 ^ (LENGTH(64) - 1)"
    by (rule sint_lt)
  with lt have "sint port + 1 < 2 ^ 63"
    by simp
  moreover have "- (2 ^ (LENGTH(64) - 1)) \<le> sint port"
    by (rule sint_ge)
  ultimately have "sint (port + 1) = sint port + 1"
    by (simp add: sint_word_ariths signed_take_bit_int_eq_self)
  with lt show "((e, port + 1, max_port), (e, port, max_port))
      \<in> measure (\<lambda>(e, port, max_port). nat (sint max_port - sint port))"
    by simp
qed

declare scan_ports.simps [simp del]

definition find_available_port :: "env \<Rightarrow> port \<Rightarrow> error + port" where
  "find_available_port e base_port = scan_ports e base_port (base_port + 100)"

text \<open>A port the loop accepts: neither probe reports it.\<close>

definition port_free :: "env \<Rightarrow> port \<Rightarrow> bool" where
  "port_free e p = (\<not> ss_listening e p \<and> \<not> lsof_open e p)"

subsection \<open>The world the script acts on\<close>

text \<open>
  \<^verbatim>\<open>files\<close>: the text files of \<^verbatim>\<open>$STATE_DIR\<close> (records \<^verbatim>\<open>NAME.json\<close>, logs \<^verbatim>\<open>NAME.log\<close>), by name
  relative to the directory, which \<^verbatim>\<open>mkdir -p\<close> at the top of the script has created.
  \<^verbatim>\<open>configs\<close>: its routing configurations \<^verbatim>\<open>TUNNEL-config.yml\<close>, as the YAML document that
  yq and cloudflared read.  \<^verbatim>\<open>procs\<close>: the background cloudflared processes, by pid.
  \<^verbatim>\<open>calls\<close>: the backend commands issued so far, in order.  \<^verbatim>\<open>slept\<close>: seconds spent in
  \<^verbatim>\<open>sleep\<close>.  \<^verbatim>\<open>tty\<close>: what \<^verbatim>\<open>log\<close>, \<^verbatim>\<open>success\<close>, \<^verbatim>\<open>warning\<close>, \<^verbatim>\<open>error\<close> and \<^verbatim>\<open>echo\<close> printed;
  \<^verbatim>\<open>DUMP\<close> stands for a \<^verbatim>\<open>cat\<close> of the named file.
\<close>

datatype level = LOG | SUCCESS | WARNING | ERROR | OUT | DUMP

datatype command =
    Quick_tunnel string
  | Named_run string string

datatype call =
    Funnel_bg string string
  | Funnel_off string
  | Funnel_reset
  | Tunnel_create string
  | Route_dns string string
  | Kill string
  | Pkill string

record rule =
  hostname_of :: "string option"
  service :: string

record config =
  tunnel :: string
  credentials_file :: string
  ingress :: "rule list"

record world =
  files :: "string \<rightharpoonup> string"
  configs :: "string \<rightharpoonup> config"
  procs :: "nat \<rightharpoonup> command"
  next_pid :: nat
  calls :: "call list"
  slept :: nat
  tty :: "(level \<times> string) list"

definition say :: "level \<Rightarrow> string \<Rightarrow> world \<Rightarrow> world" where
  "say lvl msg w = w\<lparr>tty := tty w @ [(lvl, msg)]\<rparr>"

definition sleep :: "nat \<Rightarrow> world \<Rightarrow> world" where
  "sleep n w = w\<lparr>slept := slept w + n\<rparr>"

definition call :: "call \<Rightarrow> world \<Rightarrow> world" where
  "call c w = w\<lparr>calls := calls w @ [c]\<rparr>"

definition write_file :: "string \<Rightarrow> string \<Rightarrow> world \<Rightarrow> world" where
  "write_file f text w = w\<lparr>files := (files w)(f \<mapsto> text)\<rparr>"

definition rm_f :: "string \<Rightarrow> world \<Rightarrow> world" where
  "rm_f f w = w\<lparr>files := (files w)(f := None)\<rparr>"

definition STATE_DIR :: "env \<Rightarrow> string" where
  "STATE_DIR e = HOME e @ ''/.subcode/tunnels''"

definition CLOUDFLARED_CONFIG_DIR :: "env \<Rightarrow> string" where
  "CLOUDFLARED_CONFIG_DIR e = HOME e @ ''/.cloudflared''"

subsection \<open>Decimal texts: \<^verbatim>\<open>$!\<close> and the argument of \<^verbatim>\<open>kill\<close>\<close>

definition is_digit :: "char \<Rightarrow> bool" where
  "is_digit c = (48 \<le> (of_char c :: nat) \<and> (of_char c :: nat) \<le> 57)"

definition digit_char :: "nat \<Rightarrow> char" where
  "digit_char d = ''0123456789'' ! d"

fun dec :: "nat \<Rightarrow> string" where
  "dec n = (if n < 10 then [digit_char n] else dec (n div 10) @ [digit_char (n mod 10)])"

declare dec.simps [simp del]

definition nat_of_dec :: "string \<Rightarrow> nat option" where
  "nat_of_dec s =
     (if s \<noteq> [] \<and> list_all is_digit s
      then Some (foldl (\<lambda>n c. 10 * n + ((of_char c :: nat) - 48)) 0 s)
      else None)"

text \<open>
  \<^verbatim>\<open>cmd &\<close> with its output redirected to \<^verbatim>\<open>log_file\<close>: the shell creates the log, the process
  gets the next pid (\<^verbatim>\<open>$!\<close>) and writes \<^const>\<open>proc_log\<close> to the log while the launcher waits.
\<close>

definition spawn :: "env \<Rightarrow> command \<Rightarrow> string \<Rightarrow> world \<Rightarrow> nat \<times> world" where
  "spawn e cmd log_file w =
     (next_pid w,
      w\<lparr>files := (files w)(log_file \<mapsto> proc_log e),
        procs := (procs w)(next_pid w \<mapsto> cmd),
        next_pid := Suc (next_pid w)\<rparr>)"

text \<open>
  \<^verbatim>\<open>kill "$pid" 2>/dev/null || true\<close>: one argument.  A decimal text signals that process; any
  other text (\<^verbatim>\<open>null\<close>, several pids joined by newlines) is refused by \<^verbatim>\<open>kill\<close> and nothing is
  signalled.  The status is discarded either way.
\<close>

definition kill :: "string \<Rightarrow> world \<Rightarrow> world" where
  "kill pid_text w =
     (let w1 = call (Kill pid_text) w in
      case nat_of_dec pid_text of
        None \<Rightarrow> w1
      | Some p \<Rightarrow> w1\<lparr>procs := (procs w1)(p := None)\<rparr>)"

text \<open>
  \<^verbatim>\<open>pkill -f "cloudflared tunnel" 2>/dev/null || true\<close>: every process of \<^const>\<open>procs\<close> is a
  \<^verbatim>\<open>cloudflared tunnel ...\<close> command line, so a pkill that succeeds ends them all.
\<close>

definition pkill :: "env \<Rightarrow> string \<Rightarrow> world \<Rightarrow> world" where
  "pkill e pat w =
     (let w1 = call (Pkill pat) w in
      if pkill_ok e then w1\<lparr>procs := Map.empty\<rparr> else w1)"

subsection \<open>Record files: what \<^verbatim>\<open>echo "{...}" > "$STATE_DIR/${name}.json"\<close> writes\<close>

text \<open>
  The launchers interpolate their variables into the JSON text as they are, with no
  escaping; \<^verbatim>\<open>echo\<close> ends the line.
\<close>

definition tailscale_record :: "string \<Rightarrow> string \<Rightarrow> string \<Rightarrow> string \<Rightarrow> string \<Rightarrow> string" where
  \<open>tailscale_record name local_port funnel_port url ts_host =
     ''{"method":"tailscale","name":"'' @ name @ ''","local_port":'' @ local_port @
     '',"funnel_port":'' @ funnel_port @ '',"url":"'' @ url @ ''","ts_host":"'' @ ts_host @
     ''"}'' @ [CHR 0x0A]\<close>

definition quick_record :: "string \<Rightarrow> string \<Rightarrow> string \<Rightarrow> nat \<Rightarrow> string" where
  \<open>quick_record name local_port url pid =
     ''{"method":"cloudflare_quick","name":"'' @ name @ ''","local_port":'' @ local_port @
     '',"url":"'' @ url @ ''","pid":'' @ dec pid @ ''}'' @ [CHR 0x0A]\<close>

definition named_record :: "string \<Rightarrow> string \<Rightarrow> string \<Rightarrow> string \<Rightarrow> string \<Rightarrow> nat \<Rightarrow> string" where
  \<open>named_record name local_port url hostname tunnel_name pid =
     ''{"method":"cloudflare_named","name":"'' @ name @ ''","local_port":'' @ local_port @
     '',"url":"'' @ url @ ''","hostname":"'' @ hostname @ ''","tunnel_name":"'' @ tunnel_name @
     ''","pid":'' @ dec pid @ ''}'' @ [CHR 0x0A]\<close>

subsection \<open>Reading a record back: \<^verbatim>\<open>$(jq -r '.field' "$state_file")\<close>\<close>

text \<open>
  jq is external.  What it does is written out only where it is certain, and is the answer
  of the environment everywhere else; a reading has three outcomes:

  \<^item> \<^verbatim>\<open>Read\<close>: the text is a JSON object whose values are strings of printable ASCII
    characters and the two-character escapes, unsigned integers of at most 15 digits with
    no leading zero, or \<^verbatim>\<open>null\<close>, \<^verbatim>\<open>true\<close>, \<^verbatim>\<open>false\<close>, followed by white space only.  jq
    prints the raw value of the field (\<^verbatim>\<open>null\<close> for an absent key, the last value of a key
    that occurs twice) and exits 0.
  \<^item> \<^verbatim>\<open>Refused\<close>: the text breaks the JSON grammar at a point this reader has reached by
    reading strings only: the input ends inside a string or after one, a key is not
    followed by a colon, or a string value is followed by something other than a comma or
    a closing brace.  jq prints nothing on stdout and exits non-zero.
  \<^item> \<^verbatim>\<open>Beyond\<close>: anything else (nested values, signs, fractions, exponents, \<^verbatim>\<open>\u\<close> escapes,
    long integers, control characters and bytes above 127, several values in one file, a
    top-level value that is not an object, ...).  The reader does not judge such a text.
\<close>

datatype 'a reading = Read 'a | Refused | Beyond

definition json_ws :: "char \<Rightarrow> bool" where
  "json_ws c = (c = CHR '' '' \<or> c = CHR 0x09 \<or> c = CHR 0x0A \<or> c = CHR 0x0D)"

definition skip_ws :: "string \<Rightarrow> string" where
  "skip_ws cs = dropWhile json_ws cs"

definition unescape :: "char \<Rightarrow> char option" where
  "unescape c =
     (if c = CHR 0x22 then Some (CHR 0x22)
      else if c = CHR 0x5C then Some (CHR 0x5C)
      else if c = CHR ''/'' then Some (CHR ''/'')
      else if c = CHR ''b'' then Some (CHR 0x08)
      else if c = CHR ''f'' then Some (CHR 0x0C)
      else if c = CHR ''n'' then Some (CHR 0x0A)
      else if c = CHR ''r'' then Some (CHR 0x0D)
      else if c = CHR ''t'' then Some (CHR 0x09)
      else None)"

text \<open>A character that stands for itself in a JSON string and that jq prints back as it is.\<close>

definition plain_char :: "char \<Rightarrow> bool" where
  "plain_char c =
     (c \<noteq> CHR 0x22 \<and> c \<noteq> CHR 0x5C \<and> 32 \<le> (of_char c :: nat) \<and> (of_char c :: nat) \<le> 127)"

definition read_cons :: "char \<Rightarrow> (string \<times> string) reading \<Rightarrow> (string \<times> string) reading" where
  "read_cons c r = (case r of Read (s, rest) \<Rightarrow> Read (c # s, rest) | Refused \<Rightarrow> Refused | Beyond \<Rightarrow> Beyond)"

text \<open>The body of a JSON string, after its opening quote: the decoded text and what follows
  the closing quote.\<close>

fun json_string :: "string \<Rightarrow> (string \<times> string) reading" where
  "json_string [] = Refused"
| "json_string [c] =
     (if c = CHR 0x22 then Read ([], [])
      else if c = CHR 0x5C \<or> plain_char c then Refused
      else Beyond)"
| "json_string (c # d # cs) =
     (if c = CHR 0x22 then Read ([], d # cs)
      else if c = CHR 0x5C then
        (case unescape d of
           None \<Rightarrow> Beyond
         | Some u \<Rightarrow> read_cons u (json_string cs))
      else if plain_char c then read_cons c (json_string (d # cs))
      else Beyond)"

text \<open>A value that is not a string: an unsigned integer or one of the three literals, and
  what follows it.\<close>

definition json_atom :: "string \<Rightarrow> (string \<times> string) option" where
  "json_atom cs =
     (let ds = takeWhile is_digit cs in
      if ds \<noteq> [] then
        (if (ds = ''0'' \<or> hd ds \<noteq> CHR ''0'') \<and> length ds \<le> 15
         then Some (ds, dropWhile is_digit cs)
         else None)
      else if take 4 cs = ''null'' then Some (''null'', drop 4 cs)
      else if take 4 cs = ''true'' then Some (''true'', drop 4 cs)
      else if take 5 cs = ''false'' then Some (''false'', drop 5 cs)
      else None)"

text \<open>The value of a member and the separator after it: the result is the value and the
  text from the separator on (a comma or a closing brace).\<close>

definition json_value :: "string \<Rightarrow> (string \<times> string) reading" where
  "json_value cs =
     (case cs of
        [] \<Rightarrow> Beyond
      | c # cs' \<Rightarrow>
          if c = CHR 0x22 then
            (case json_string cs' of
               Read (s, r) \<Rightarrow>
                 (case skip_ws r of
                    [] \<Rightarrow> Refused
                  | sep # r' \<Rightarrow>
                      if sep = CHR '','' \<or> sep = CHR ''}'' then Read (s, sep # r') else Refused)
             | Refused \<Rightarrow> Refused
             | Beyond \<Rightarrow> Beyond)
          else
            (case json_atom cs of
               None \<Rightarrow> Beyond
             | Some (v, r) \<Rightarrow>
                 (case skip_ws r of
                    [] \<Rightarrow> Beyond
                  | sep # r' \<Rightarrow>
                      if sep = CHR '','' \<or> sep = CHR ''}'' then Read (v, sep # r') else Beyond)))"

lemma read_cons_Read:
  "read_cons c x = Read (s, r) \<Longrightarrow> \<exists>s'. x = Read (s', r)"
  by (cases x) (auto simp: read_cons_def)

lemma json_string_shorter:
  "json_string cs = Read (s, r) \<Longrightarrow> length r < length cs"
proof (induction cs arbitrary: s r rule: json_string.induct)
  case 1
  then show ?case by simp
next
  case (2 c)
  then show ?case by (simp split: if_splits)
next
  case (3 c d cs)
  show ?case
  proof (cases "c = CHR 0x22")
    case True
    with "3.prems" show ?thesis by auto
  next
    case nq: False
    show ?thesis
    proof (cases "c = CHR 0x5C")
      case True
      with nq "3.prems" obtain u where u: "unescape d = Some u"
          and "read_cons u (json_string cs) = Read (s, r)"
        by (auto split: option.splits)
      then obtain s' where "json_string cs = Read (s', r)"
        by (auto dest: read_cons_Read)
      with nq True u "3.IH"(1) [of u s' r] show ?thesis by simp
    next
      case False
      with nq "3.prems" have p: "plain_char c" and "read_cons c (json_string (d # cs)) = Read (s, r)"
        by (auto split: if_splits)
      then obtain s' where "json_string (d # cs) = Read (s', r)"
        by (auto dest: read_cons_Read)
      with nq False p "3.IH"(2) [of s' r] show ?thesis by simp
    qed
  qed
qed

lemma skip_ws_shorter:
  "skip_ws cs = c # r \<Longrightarrow> length r < length cs"
proof -
  assume a: "skip_ws cs = c # r"
  have "length (skip_ws cs) \<le> length cs"
    by (simp add: skip_ws_def length_dropWhile_le)
  with a show ?thesis by simp
qed

lemma json_atom_shorter:
  "json_atom cs = Some (v, r) \<Longrightarrow> length r \<le> length cs"
  by (auto simp: json_atom_def Let_def length_dropWhile_le split: if_splits)

lemma json_value_shorter:
  assumes "json_value cs = Read (v, sep # r)"
  shows "length r < length cs"
proof (cases cs)
  case Nil
  with assms show ?thesis by (simp add: json_value_def)
next
  case (Cons c cs')
  show ?thesis
  proof (cases "c = CHR 0x22")
    case True
    with assms Cons obtain s r0 where s: "json_string cs' = Read (s, r0)"
      by (auto simp: json_value_def split: reading.splits)
    with assms Cons True have "skip_ws r0 = sep # r"
      by (auto simp: json_value_def split: list.splits if_splits)
    then have "length r < length r0"
      by (rule skip_ws_shorter)
    moreover have "length r0 < length cs'"
      using s by (rule json_string_shorter)
    ultimately show ?thesis
      using Cons by simp
  next
    case False
    with assms Cons obtain v0 r0 where a: "json_atom cs = Some (v0, r0)"
      by (auto simp: json_value_def split: option.splits)
    with assms Cons False have "skip_ws r0 = sep # r"
      by (auto simp: json_value_def split: list.splits if_splits)
    then have "length r < length r0"
      by (rule skip_ws_shorter)
    moreover have "length r0 \<le> length cs"
      using a by (rule json_atom_shorter)
    ultimately show ?thesis
      by simp
  qed
qed

text \<open>The members of an object, after its opening brace: \<^verbatim>\<open>"key" : value\<close>, separated by
  commas, up to the closing brace, after which only white space may follow.\<close>

function json_members :: "string \<Rightarrow> (string \<times> string) list \<Rightarrow> (string \<times> string) list reading" where
  "json_members cs acc =
     (case skip_ws cs of
        [] \<Rightarrow> Beyond
      | q # cs1 \<Rightarrow>
          if q \<noteq> CHR 0x22 then Beyond
          else
            (case json_string cs1 of
               Refused \<Rightarrow> Refused
             | Beyond \<Rightarrow> Beyond
             | Read (k, cs2) \<Rightarrow>
                 (case skip_ws cs2 of
                    [] \<Rightarrow> Refused
                  | colon # cs3 \<Rightarrow>
                      if colon \<noteq> CHR '':'' then Refused
                      else
                        (case json_value (skip_ws cs3) of
                           Refused \<Rightarrow> Refused
                         | Beyond \<Rightarrow> Beyond
                         | Read (v, cs4) \<Rightarrow>
                             (case cs4 of
                                [] \<Rightarrow> Beyond
                              | sep # cs5 \<Rightarrow>
                                  if sep = CHR '','' then json_members cs5 (acc @ [(k, v)])
                                  else if skip_ws cs5 = [] then Read (acc @ [(k, v)])
                                  else Beyond)))))"
  by pat_completeness auto
termination
proof (relation "measure (\<lambda>(cs, acc). length cs)")
  show "wf (measure (\<lambda>(cs, acc). length cs))"
    by simp
next
  fix cs :: string and acc :: "(string \<times> string) list"
    and q cs1 x k cs2 colon cs3 y v cs4 sep cs5
  assume a1: "skip_ws cs = q # cs1"
    and a2: "json_string cs1 = Read x" "(k, cs2) = x"
    and a3: "skip_ws cs2 = colon # cs3"
    and a4: "json_value (skip_ws cs3) = Read y" "(v, cs4) = y"
    and a5: "cs4 = sep # cs5"
  have "length cs1 < length cs"
    using a1 by (rule skip_ws_shorter)
  moreover have "length cs2 < length cs1"
    using a2 json_string_shorter [of cs1 k cs2] by simp
  moreover have "length cs3 < length cs2"
    using a3 by (rule skip_ws_shorter)
  moreover have "length cs5 < length (skip_ws cs3)"
    using a4 a5 json_value_shorter [of "skip_ws cs3" v sep cs5] by simp
  moreover have "length (skip_ws cs3) \<le> length cs3"
    by (simp add: skip_ws_def length_dropWhile_le)
  ultimately show "((cs5, acc @ [(k, v)]), (cs, acc)) \<in> measure (\<lambda>(cs, acc). length cs)"
    by simp
qed

declare json_members.simps [simp del]

definition json_object :: "string \<Rightarrow> (string \<times> string) list reading" where
  "json_object text =
     (case skip_ws text of
        [] \<Rightarrow> Beyond
      | c # cs \<Rightarrow>
          if c \<noteq> CHR ''{'' then Beyond
          else
            (case skip_ws cs of
               [] \<Rightarrow> Beyond
             | d # ds \<Rightarrow>
                 if d = CHR ''}'' then (if skip_ws ds = [] then Read [] else Beyond)
                 else json_members cs []))"

text \<open>
  \<^verbatim>\<open>jq -r '.field' FILE\<close>: what jq prints on stdout, or \<^verbatim>\<open>None\<close> for a non-zero exit.  Without
  jq the shell finds no command (status 127).  Of a file that holds white space only jq
  reads no value: it prints nothing and exits 0.  For a text beyond the reader the answer
  is \<^const>\<open>jq_beyond\<close>, that of the jq of the machine.
\<close>

definition jq_r :: "env \<Rightarrow> string \<Rightarrow> string \<Rightarrow> string option" where
  "jq_r e field text =
     (if \<not> has_jq e then None
      else if skip_ws text = [] then Some []
      else
        (case json_object text of
           Read kvs \<Rightarrow>
             Some ((case map_of (rev kvs) field of None \<Rightarrow> ''null'' | Some v \<Rightarrow> v) @ [CHR 0x0A])
         | Refused \<Rightarrow> None
         | Beyond \<Rightarrow> jq_beyond e field text))"

text \<open>\<^verbatim>\<open>$(...)\<close> drops the newlines that end a command's output.\<close>

definition cmd_subst :: "string \<Rightarrow> string" where
  "cmd_subst out = rev (dropWhile (\<lambda>c. c = CHR 0x0A) (rev out))"

text \<open>A text of plain characters is its own JSON string body.\<close>

definition json_plain :: "string \<Rightarrow> bool" where
  "json_plain s = list_all plain_char s"

subsection \<open>Detection: \<^verbatim>\<open>get_machine_name\<close>, \<^verbatim>\<open>check_tailscale\<close>, \<^verbatim>\<open>check_cloudflare\<close>, \<^verbatim>\<open>cmd_detect\<close>\<close>

definition get_machine_name :: "env \<Rightarrow> string" where
  "get_machine_name e =
     (if TUNNEL_MACHINE_NAME e \<noteq> '''' then TUNNEL_MACHINE_NAME e
      else if has_tailscale e \<and> ts_self_hostname e \<noteq> '''' then ts_self_hostname e
      else (case os_hostname e of Some h \<Rightarrow> h | None \<Rightarrow> ''dev''))"

definition check_tailscale :: "env \<Rightarrow> string" where
  "check_tailscale e =
     (if \<not> has_tailscale e then ''not_installed''
      else if ts_backend_state e = ''Running'' then ''ready''
      else if ts_backend_state e = ''NeedsLogin'' then ''needs_login''
      else ''not_connected'')"

definition check_cloudflare :: "env \<Rightarrow> string" where
  "check_cloudflare e =
     (if \<not> has_cloudflared e then ''not_installed''
      else if cloudflared_list_ok e then ''authenticated''
      else ''not_authenticated'')"

definition get_cloudflare_domain :: "env \<Rightarrow> string" where
  "get_cloudflare_domain e = CLOUDFLARE_TUNNEL_DOMAIN e"

text \<open>The \<^verbatim>\<open>recommended\<close> field of the report of \<^verbatim>\<open>cmd_detect\<close> (lines 461-469).\<close>

definition recommended :: "env \<Rightarrow> string" where
  "recommended e =
     (if check_cloudflare e = ''authenticated'' \<and> get_cloudflare_domain e \<noteq> '''' then ''cloudflare_named''
      else if check_tailscale e = ''ready'' then ''tailscale''
      else ''cloudflare_quick'')"

text \<open>
  \<^verbatim>\<open>cmd_detect\<close> (lines 442-474).  The report is the here-document of lines 450-471, which
  quotes the machine name and the domain as they are; \<^verbatim>\<open>echo\<close> ends it with a newline.
\<close>

definition detect_report :: "env \<Rightarrow> string" where
  \<open>detect_report e =
     ''{'' @ [CHR 0x0A] @
     ''  "machine_name": "'' @ get_machine_name e @ ''",'' @ [CHR 0x0A] @
     ''  "tailscale": {'' @ [CHR 0x0A] @
     ''    "status": "'' @ check_tailscale e @ ''",'' @ [CHR 0x0A] @
     ''    "ready": '' @ (if check_tailscale e = ''ready'' then ''true'' else ''false'') @ [CHR 0x0A] @
     ''  },'' @ [CHR 0x0A] @
     ''  "cloudflare": {'' @ [CHR 0x0A] @
     ''    "status": "'' @ check_cloudflare e @ ''",'' @ [CHR 0x0A] @
     ''    "authenticated": '' @
           (if check_cloudflare e = ''authenticated'' then ''true'' else ''false'') @ '','' @ [CHR 0x0A] @
     ''    "domain": "'' @ get_cloudflare_domain e @ ''"'' @ [CHR 0x0A] @
     ''  },'' @ [CHR 0x0A] @
     ''  "recommended": "'' @ recommended e @ ''"'' @ [CHR 0x0A] @
     ''}'' @ [CHR 0x0A]\<close>

text \<open>
  The report goes through \<^verbatim>\<open>jq .\<close>, and \<^verbatim>\<open>cmd_start\<close> reads \<^verbatim>\<open>.recommended\<close> back from what jq
  printed (lines 510-511).  The value here is that read-back, \<^verbatim>\<open>None\<close> when jq exits
  non-zero (the pipeline ends \<^verbatim>\<open>cmd_detect\<close>, under \<^verbatim>\<open>pipefail\<close>).  Every other part of the
  report is a literal of the script, so with a plain machine name and a plain domain the
  report is JSON and the read-back is \<^const>\<open>recommended\<close>.  Otherwise jq refuses the report
  when the reader does, and the read-back is \<^const>\<open>jq_report\<close>, the answer of the jq of the
  machine, when the reader does not judge it.
\<close>

definition cmd_detect :: "env \<Rightarrow> string option" where
  "cmd_detect e =
     (if \<not> has_jq e then None
      else if json_plain (get_machine_name e) \<and> json_plain (get_cloudflare_domain e)
      then Some (recommended e)
      else
        (case json_object (detect_report e) of
           Refused \<Rightarrow> None
         | Read kvs \<Rightarrow> jq_report e
         | Beyond \<Rightarrow> jq_report e))"

subsection \<open>Overlay funnel launcher: \<^verbatim>\<open>start_tailscale_funnel\<close> (lines 150-183)\<close>

text \<open>The third argument is \<^verbatim>\<open>${3:-443}\<close>: the empty text stands for an absent one.\<close>

definition start_tailscale_funnel ::
    "env \<Rightarrow> string \<Rightarrow> string \<Rightarrow> string \<Rightarrow> world \<Rightarrow> (error + string) \<times> world" where
  "start_tailscale_funnel e local_port name arg3 w =
     (let funnel_port = (if arg3 = '''' then ''443'' else arg3);
          w1 = say LOG (''Starting Tailscale funnel for port '' @ local_port @ ''...'') w;
          ts_host = ts_self_dnsname e
      in
      if ts_host = '''' then
        (Inl No_tailscale_hostname, say ERROR ''Could not determine Tailscale hostname'' w1)
      else
        let w2 = call (Funnel_bg funnel_port local_port) w1 in
        if funnel_bg_ok e funnel_port local_port then
          let url = ''https://'' @ ts_host @ (if funnel_port \<noteq> ''443'' then '':'' @ funnel_port else '''');
              w3 = write_file (name @ ''.json'')
                     (tailscale_record name local_port funnel_port url ts_host) w2
          in (Inr url, say OUT url (say SUCCESS ''Tailscale funnel created!'' w3))
        else
          (Inl Funnel_failed, say ERROR ''Failed to start Tailscale funnel (may need sudo)'' w2))"

subsection \<open>Quick/ephemeral launcher: \<^verbatim>\<open>start_cloudflare_quick\<close> (lines 186-226)\<close>

text \<open>
  The polling loop of lines 202-211.  \<^const>\<open>grep_url\<close> \<^verbatim>\<open>e waited\<close> is what
  \<^verbatim>\<open>grep -o 'https://[^[:space:]]*\.trycloudflare\.com' "$log_file" | head -1\<close> prints at the
  poll made after \<^verbatim>\<open>waited\<close> seconds (empty when the log has no URL yet).
\<close>

definition max_wait :: nat where
  "max_wait = 30"

function wait_for_url :: "env \<Rightarrow> string \<Rightarrow> nat \<Rightarrow> world \<Rightarrow> string \<times> world" where
  "wait_for_url e log_file waited w =
     (if waited < max_wait then
        (let url = (if files w log_file \<noteq> None then grep_url e waited else '''') in
         if url \<noteq> '''' then (url, w)
         else wait_for_url e log_file (waited + 1) (sleep 1 w))
      else ('''', w))"
  by pat_completeness auto
termination
  by (relation "measure (\<lambda>(e, log_file, waited, w). max_wait - waited)") auto

declare wait_for_url.simps [simp del]

definition start_cloudflare_quick ::
    "env \<Rightarrow> string \<Rightarrow> string \<Rightarrow> world \<Rightarrow> (error + string) \<times> world" where
  "start_cloudflare_quick e local_port name w =
     (let w1 = say LOG (''Starting Cloudflare quick tunnel for port '' @ local_port @ ''...'') w;
          log_file = name @ ''.log'';
          (pid, w2) = spawn e (Quick_tunnel (''http://localhost:'' @ local_port)) log_file w1;
          (url, w3) = wait_for_url e log_file 0 w2
      in
      if url = '''' then
        (Inl No_tunnel_url,
         say DUMP log_file (say ERROR ''Failed to get tunnel URL'' (kill (dec pid) w3)))
      else
        let w4 = write_file (name @ ''.json'') (quick_record name local_port url pid) w3
        in (Inr url, say OUT url (say SUCCESS ''Cloudflare quick tunnel created!'' w4)))"

subsection \<open>Routed/named launcher: \<^verbatim>\<open>start_cloudflare_named\<close> (lines 229-347)\<close>

text \<open>The names of lines 243, 244, 272 and 279.\<close>

definition tunnel_name_of :: "env \<Rightarrow> string" where
  "tunnel_name_of e =
     (if CLOUDFLARE_TUNNEL_NAME e \<noteq> '''' then CLOUDFLARE_TUNNEL_NAME e else get_machine_name e)"

definition derived_hostname :: "env \<Rightarrow> string \<Rightarrow> string" where
  "derived_hostname e name = name @ ''-'' @ get_machine_name e @ ''.'' @ CLOUDFLARE_TUNNEL_DOMAIN e"

definition creds_file_of :: "env \<Rightarrow> string" where
  "creds_file_of e = CLOUDFLARED_CONFIG_DIR e @ ''/'' @ tunnel_id_of e (tunnel_name_of e) @ ''.json''"

definition config_file_of :: "env \<Rightarrow> string" where
  "config_file_of e = tunnel_name_of e @ ''-config.yml''"

text \<open>Lines 248-255: the tunnel resource is created when the list does not show it.  The
  flag says whether the launcher goes on.\<close>

definition ensure_tunnel :: "env \<Rightarrow> string \<Rightarrow> world \<Rightarrow> bool \<times> world" where
  "ensure_tunnel e tunnel_name w =
     (if tunnel_listed e tunnel_name then (True, w)
      else
        let w1 = call (Tunnel_create tunnel_name)
                   (say LOG (''Creating tunnel '' @ [CHR 0x27] @ tunnel_name @ [CHR 0x27] @ ''...'') w)
        in if tunnel_create_ok e tunnel_name then (True, w1)
           else (False, say ERROR ''Failed to create tunnel'' w1))"

text \<open>Lines 266-269: the DNS route; a failure is logged and the launcher goes on.\<close>

definition ensure_dns_route :: "env \<Rightarrow> string \<Rightarrow> string \<Rightarrow> world \<Rightarrow> world" where
  "ensure_dns_route e tunnel_name hostname w =
     (let w1 = call (Route_dns tunnel_name hostname) w in
      if route_dns_ok e tunnel_name hostname then w1
      else say LOG ''DNS route may already exist, continuing...'' w1)"

text \<open>
  Lines 278-312, the routing configuration.  With yq: the rules of this hostname are
  deleted and the new rule is put in front of the rest.  Without yq and with a file
  already there: the file is rebuilt from the heredoc of lines 292-299.  With no file:
  the heredoc of lines 303-311.  (The temporary file of the yq branch is made and removed
  outside \<^verbatim>\<open>$STATE_DIR\<close>.)
\<close>

definition update_config ::
    "env \<Rightarrow> string \<Rightarrow> string \<Rightarrow> string \<Rightarrow> string \<Rightarrow> string \<Rightarrow> world \<Rightarrow> world" where
  "update_config e config_file tunnel_name creds_file hostname local_port w =
     (let new_rule = \<lparr>hostname_of = Some hostname, service = ''http://localhost:'' @ local_port\<rparr> in
      case configs w config_file of
        Some c \<Rightarrow>
          if has_yq e then
            w\<lparr>configs := (configs w)(config_file \<mapsto>
                 c\<lparr>ingress := new_rule # filter (\<lambda>r. hostname_of r \<noteq> Some hostname) (ingress c)\<rparr>)\<rparr>
          else
            w\<lparr>configs := (configs w)(config_file \<mapsto>
                 \<lparr>tunnel = tunnel_name, credentials_file = creds_file, ingress = [new_rule]\<rparr>)\<rparr>
      | None \<Rightarrow>
          w\<lparr>configs := (configs w)(config_file \<mapsto>
               \<lparr>tunnel = tunnel_name, credentials_file = creds_file,
                ingress = [new_rule, \<lparr>hostname_of = None, service = ''http_status:404''\<rparr>]\<rparr>)\<rparr>)"

text \<open>Lines 314-323.  The output of \<^verbatim>\<open>pgrep\<close> is one pid per line, and the whole of it is the
  one argument of \<^verbatim>\<open>kill\<close>.\<close>

fun pid_lines :: "nat list \<Rightarrow> string" where
  "pid_lines [] = []"
| "pid_lines [p] = dec p"
| "pid_lines (p # q # ps) = dec p @ [CHR 0x0A] @ pid_lines (q # ps)"

definition restart_existing :: "env \<Rightarrow> string \<Rightarrow> world \<Rightarrow> world" where
  "restart_existing e tunnel_name w =
     (let existing_pid = pid_lines (pgrep_run e tunnel_name) in
      if existing_pid \<noteq> '''' then
        sleep 2 (kill existing_pid (say LOG ''Restarting tunnel to apply new configuration...'' w))
      else w)"

text \<open>
  cloudflared checks the ingress list of its configuration when it starts and exits at once
  unless the last rule matches every request, that is, has no hostname (its message: ``The
  last ingress rule must match all URLs'').
\<close>

definition ingress_accepted :: "config option \<Rightarrow> bool" where
  "ingress_accepted c =
     (case c of
        None \<Rightarrow> False
      | Some c \<Rightarrow> ingress c \<noteq> [] \<and> hostname_of (last (ingress c)) = None)"

text \<open>Lines 325-346: the process is started, given five seconds, and the record is written
  if it is still alive (\<^verbatim>\<open>kill -0\<close>).  \<^const>\<open>alive_after_settle\<close> is what becomes of a process
  whose configuration cloudflared accepts.\<close>

definition run_tunnel ::
    "env \<Rightarrow> string \<Rightarrow> string \<Rightarrow> string \<Rightarrow> string \<Rightarrow> string \<Rightarrow> world \<Rightarrow> (error + string) \<times> world" where
  "run_tunnel e local_port name tunnel_name hostname config_file w =
     (let log_file = tunnel_name @ ''.log'';
          (pid, w1) = spawn e (Named_run config_file tunnel_name) log_file w;
          w2 = sleep 5 w1
      in
      if \<not> (alive_after_settle e \<and> ingress_accepted (configs w config_file)) then
        (Inl Tunnel_process_died,
         say DUMP log_file
           (say ERROR (''Tunnel process died. Check log: '' @ STATE_DIR e @ ''/'' @ log_file)
              (w2\<lparr>procs := (procs w2)(pid := None)\<rparr>)))
      else
        let url = ''https://'' @ hostname;
            w3 = write_file (name @ ''.json'')
                   (named_record name local_port url hostname tunnel_name pid) w2
        in (Inr url, say OUT url (say SUCCESS ''Cloudflare named tunnel created!'' w3)))"

definition start_cloudflare_named ::
    "env \<Rightarrow> string \<Rightarrow> string \<Rightarrow> world \<Rightarrow> (error + string) \<times> world" where
  "start_cloudflare_named e local_port name w =
     (if CLOUDFLARE_TUNNEL_DOMAIN e = '''' then
        (Inl Domain_required,
         say ERROR ''Set it to your Cloudflare domain, e.g.: export CLOUDFLARE_TUNNEL_DOMAIN=yourdomain.com''
           (say ERROR ''CLOUDFLARE_TUNNEL_DOMAIN environment variable is required for named tunnels'' w))
      else
        let tunnel_name = tunnel_name_of e;
            hostname = derived_hostname e name;
            w1 = say LOG (''Starting Cloudflare named tunnel for port '' @ local_port @ '' -> '' @ hostname @ ''...'') w;
            (created, w2) = ensure_tunnel e tunnel_name w1
        in
        if \<not> created then (Inl Tunnel_create_failed, w2)
        else if tunnel_id_of e tunnel_name = '''' then
          (Inl Tunnel_id_not_found,
           say ERROR (''Could not find tunnel ID for '' @ [CHR 0x27] @ tunnel_name @ [CHR 0x27]) w2)
        else
          let w3 = ensure_dns_route e tunnel_name hostname w2;
              creds_file = creds_file_of e
          in
          if \<not> creds_present e creds_file then
            (Inl Credentials_not_found,
             say ERROR (''Credentials file not found: '' @ creds_file) w3)
          else
            let config_file = config_file_of e;
                w4 = update_config e config_file tunnel_name creds_file hostname local_port w3;
                w5 = restart_existing e tunnel_name w4
            in run_tunnel e local_port name tunnel_name hostname config_file w5)"

subsection \<open>Tunnel Stopper: \<^verbatim>\<open>stop_tunnel\<close> (lines 350-387) and \<^verbatim>\<open>stop_all_tunnels\<close> (lines 390-403)\<close>

text \<open>
  Each \<^verbatim>\<open>var=$(jq -r ... "$state_file")\<close> is an unguarded command: when jq exits non-zero,
  \<^verbatim>\<open>set -e\<close> ends the script there with jq's status, before \<^verbatim>\<open>rm -f\<close>.  The \<^verbatim>\<open>case\<close> of
  lines 362-383 has no default branch.
\<close>

definition stop_tunnel :: "env \<Rightarrow> string \<Rightarrow> world \<Rightarrow> (error + unit) \<times> world" where
  "stop_tunnel e name w =
     (let state_file = name @ ''.json'' in
      case files w state_file of
        None \<Rightarrow> (Inr (), say WARNING (''No tunnel found with name: '' @ name) w)
      | Some text \<Rightarrow>
          (case jq_r e ''method'' text of
             None \<Rightarrow> (Inl (Errexit ''jq''), w)
           | Some out \<Rightarrow>
               let method = cmd_subst out;
                   finish = (\<lambda>w'. (Inr (), say SUCCESS (''Tunnel '' @ [CHR 0x27] @ name @ [CHR 0x27] @ '' stopped'')
                                         (rm_f state_file w')))
               in
               if method = ''tailscale'' then
                 (case jq_r e ''funnel_port'' text of
                    None \<Rightarrow> (Inl (Errexit ''jq''), w)
                  | Some out1 \<Rightarrow>
                      let funnel_port = cmd_subst out1 in
                      finish (call (Funnel_off funnel_port)
                              (say LOG (''Stopping Tailscale funnel on port '' @ funnel_port @ ''...'') w)))
               else if method = ''cloudflare_quick'' then
                 (case jq_r e ''pid'' text of
                    None \<Rightarrow> (Inl (Errexit ''jq''), w)
                  | Some out1 \<Rightarrow>
                      let pid = cmd_subst out1 in
                      finish (kill pid
                              (say LOG (''Stopping Cloudflare quick tunnel (PID: '' @ pid @ '')...'') w)))
               else if method = ''cloudflare_named'' then
                 (case jq_r e ''tunnel_name'' text of
                    None \<Rightarrow> (Inl (Errexit ''jq''), w)
                  | Some out1 \<Rightarrow>
                      (case jq_r e ''hostname'' text of
                         None \<Rightarrow> (Inl (Errexit ''jq''), w)
                       | Some out2 \<Rightarrow>
                           let tunnel_name = cmd_subst out1;
                               hostname = cmd_subst out2
                           in finish (say LOG (''Removing '' @ hostname @ '' from tunnel '' @ tunnel_name @ ''...'') w)))
               else finish w))"

text \<open>
  \<^verbatim>\<open>rm -f "$STATE_DIR"/*.json\<close>: the files the pattern \<^verbatim>\<open>*.json\<close> expands to.  The star matches
  no slash and, the script setting no \<^verbatim>\<open>dotglob\<close>, no name that starts with a dot.
\<close>

definition ends_with :: "string \<Rightarrow> string \<Rightarrow> bool" where
  "ends_with suffix f = (length suffix \<le> length f \<and> drop (length f - length suffix) f = suffix)"

definition glob_star_json :: "string \<Rightarrow> bool" where
  "glob_star_json f =
     (case f of
        [] \<Rightarrow> False
      | c # cs \<Rightarrow> c \<noteq> CHR ''.'' \<and> CHR ''/'' \<notin> set f \<and> ends_with ''.json'' f)"

definition stop_all_tunnels :: "env \<Rightarrow> world \<Rightarrow> (error + unit) \<times> world" where
  "stop_all_tunnels e w =
     (let w1 = say LOG ''Stopping all tunnels...'' w;
          w2 = call Funnel_reset w1;
          w3 = pkill e ''cloudflared tunnel'' w2;
          w4 = w3\<lparr>files := (\<lambda>f. if glob_star_json f then None else files w3 f)\<rparr>
      in (Inr (), say SUCCESS ''All tunnels stopped'' w4))"

subsection \<open>Tunnel Orchestrator: \<^verbatim>\<open>cmd_start\<close> (lines 476-537), and \<^verbatim>\<open>cmd_stop\<close>, \<^verbatim>\<open>cmd_find_port\<close>\<close>

text \<open>The option loop of lines 482-497; \<^verbatim>\<open>${1#*=}\<close> of an argument \<^verbatim>\<open>--method=M\<close> is \<^verbatim>\<open>M\<close>.\<close>

fun parse_options :: "string list \<Rightarrow> string \<times> string \<times> string \<Rightarrow> string \<times> string \<times> string" where
  "parse_options [] (port, name, method) = (port, name, method)"
| "parse_options (a # as) (port, name, method) =
     (if take 9 a = ''--method='' then parse_options as (port, name, drop 9 a)
      else if port = '''' then parse_options as (a, name, method)
      else if name = '''' then parse_options as (port, a, method)
      else parse_options as (port, name, method))"

text \<open>The dispatch of lines 521-536.\<close>

definition dispatch :: "env \<Rightarrow> string \<Rightarrow> string \<Rightarrow> string \<Rightarrow> world \<Rightarrow> (error + string) \<times> world" where
  "dispatch e method port name w =
     (if method = ''tailscale'' then start_tailscale_funnel e port name '''' w
      else if method = ''cloudflare'' \<or> method = ''cloudflare_named'' then start_cloudflare_named e port name w
      else if method = ''cloudflare_quick'' \<or> method = ''quick'' then start_cloudflare_quick e port name w
      else
        (Inl (Unknown_method method),
         say OUT ''Available methods: tailscale, cloudflare, cloudflare_quick''
           (say ERROR (''Unknown method: '' @ method) w)))"

text \<open>
  Lines 477-505: the positional arguments and the options; the default name.  Lines
  508-513: with no method given, the method is the one \<^verbatim>\<open>cmd_detect\<close> recommends, and the
  unguarded \<^verbatim>\<open>detection=$(cmd_detect)\<close> ends the script under \<^verbatim>\<open>set -e\<close> when jq fails there.
  Lines 512 and 516-519: what \<^verbatim>\<open>cmd_start\<close> itself prints before the launcher runs.
\<close>

definition start_args :: "string list \<Rightarrow> string \<times> string \<times> string" where
  "start_args args =
     parse_options args
       (case args of [] \<Rightarrow> '''' | a # _ \<Rightarrow> a, case args of a # b # _ \<Rightarrow> b | _ \<Rightarrow> '''', '''')"

definition default_name :: "string \<Rightarrow> string \<Rightarrow> string" where
  "default_name port name1 = (if name1 = '''' then ''app-'' @ port else name1)"

definition select_method :: "env \<Rightarrow> string \<Rightarrow> string option" where
  "select_method e method0 = (if method0 = '''' then cmd_detect e else Some method0)"

definition announce :: "env \<Rightarrow> string \<Rightarrow> string \<Rightarrow> string \<Rightarrow> world \<Rightarrow> world" where
  "announce e port method0 method w =
     (let w1 = (if method0 = '''' then say LOG (''Auto-selected method: '' @ method) w else w) in
      if \<not> ss_listening_on e port then
        say OUT ''Make sure your dev server is running first''
          (say WARNING (''Nothing is listening on port '' @ port) w1)
      else w1)"

definition cmd_start :: "env \<Rightarrow> string list \<Rightarrow> world \<Rightarrow> (error + string) \<times> world" where
  "cmd_start e args w =
     (case start_args args of
        (port, name1, method0) \<Rightarrow>
          if port = '''' then
            (Inl Usage,
             say ERROR ''Usage: tunnel.sh start <port> [name] [--method=tailscale|cloudflare|cloudflare_quick]'' w)
          else
            (case select_method e method0 of
               None \<Rightarrow> (Inl (Errexit ''cmd_detect''), w)
             | Some method \<Rightarrow>
                 dispatch e method port (default_name port name1) (announce e port method0 method w)))"

definition cmd_stop :: "env \<Rightarrow> string list \<Rightarrow> world \<Rightarrow> (error + unit) \<times> world" where
  "cmd_stop e args w =
     (let name = (case args of [] \<Rightarrow> '''' | a # _ \<Rightarrow> a) in
      if name = '''' then (Inl Usage, say ERROR ''Usage: tunnel.sh stop <name>'' w)
      else stop_tunnel e name w)"

definition cmd_stop_all :: "env \<Rightarrow> world \<Rightarrow> (error + unit) \<times> world" where
  "cmd_stop_all e w = stop_all_tunnels e w"

definition cmd_find_port :: "env \<Rightarrow> port option \<Rightarrow> error + port" where
  "cmd_find_port e arg = find_available_port e (case arg of None \<Rightarrow> 3000 | Some b \<Rightarrow> b)"

subsection \<open>A concrete machine\<close>

text \<open>
  A host with cloudflared and no tailscale, machine name \<^verbatim>\<open>dev\<close>, whose ports 3000 and 3001
  are seen by \<^verbatim>\<open>ss\<close> and 3002 only by \<^verbatim>\<open>lsof\<close>; a quick tunnel prints its URL within two
  seconds; the named tunnel \<^verbatim>\<open>dev\<close> exists with its credentials; jq is installed and yq is
  not.  (The two answers of jq for texts that the reader does not judge are never
  consulted on this machine in what follows.)
\<close>

definition env0 :: env where
  "env0 =
     \<lparr>TUNNEL_MACHINE_NAME = ''dev'',
      CLOUDFLARE_TUNNEL_DOMAIN = ''example.com'',
      CLOUDFLARE_TUNNEL_NAME = '''',
      HOME = ''/home/u'',
      has_tailscale = False,
      has_cloudflared = True,
      has_yq = False,
      has_jq = True,
      jq_beyond = (\<lambda>field text. Some (''null'' @ [CHR 0x0A])),
      jq_report = Some ''cloudflare_quick'',
      ts_self_hostname = '''',
      ts_self_dnsname = '''',
      ts_backend_state = ''error'',
      cloudflared_list_ok = True,
      os_hostname = Some ''devbox'',
      funnel_bg_ok = (\<lambda>fp lp. False),
      funnel_off_ok = (\<lambda>fp. False),
      funnel_reset_ok = False,
      pkill_ok = True,
      grep_url = (\<lambda>i. if 2 \<le> i then ''https://abc.trycloudflare.com'' else ''''),
      proc_log = ''INF Requesting new quick Tunnel on trycloudflare.com...'',
      tunnel_listed = (\<lambda>t. t = ''dev''),
      tunnel_create_ok = (\<lambda>t. True),
      tunnel_id_of = (\<lambda>t. if t = ''dev'' then ''1f2e'' else ''''),
      route_dns_ok = (\<lambda>t h. True),
      creds_present = (\<lambda>f. f = ''/home/u/.cloudflared/1f2e.json''),
      pgrep_run = (\<lambda>t. []),
      alive_after_settle = True,
      ss_listening = (\<lambda>p. p = 3000 \<or> p = 3001),
      lsof_open = (\<lambda>p. p = 3002),
      ss_listening_on = (\<lambda>p. p = ''3000'')\<rparr>"

definition world0 :: world where
  "world0 =
     \<lparr>files = Map.empty, configs = Map.empty, procs = Map.empty, next_pid = 4242,
      calls = [], slept = 0, tty = []\<rparr>"

text \<open>The same machine with yq installed; with the first named tunnel process (pid 4242) found
  by \<^verbatim>\<open>pgrep\<close>; with a tunnel process that dies while the launcher waits; and with the
  credentials file of the tunnel missing; and with a quick tunnel that never prints a URL.\<close>

definition env_yq :: env where
  "env_yq = env0\<lparr>has_yq := True\<rparr>"

definition env_again :: env where
  "env_again = env0\<lparr>pgrep_run := (\<lambda>t. if t = ''dev'' then [4242] else [])\<rparr>"

definition env_dying :: env where
  "env_dying = env0\<lparr>alive_after_settle := False\<rparr>"

definition env_nocreds :: env where
  "env_nocreds = env0\<lparr>creds_present := (\<lambda>f. False)\<rparr>"

definition env_silent :: env where
  "env_silent = env0\<lparr>grep_url := (\<lambda>i. '''')\<rparr>"

text \<open>A state directory holding a record written by some other tool, and a running process.\<close>

definition ngrok_world :: world where
  \<open>ngrok_world =
     world0\<lparr>files := [''old.json'' \<mapsto> ''{"method":"ngrok","name":"old"}'' @ [CHR 0x0A]],
            procs := [77 \<mapsto> Quick_tunnel ''http://localhost:8080'']\<rparr>\<close>

text \<open>The catch-all rule that ends an ingress list.\<close>

definition catch_all_404 :: rule where
  "catch_all_404 = \<lparr>hostname_of = None, service = ''http_status:404''\<rparr>"

text \<open>A state directory holding the record of an overlay funnel; and the world after a routed
  launch of \<^verbatim>\<open>web\<close> on the machine with yq.\<close>

definition ts_world :: world where
  "ts_world =
     world0\<lparr>files := [''site.json'' \<mapsto>
                tailscale_record ''site'' ''8080'' ''443'' ''https://box.tail1234.ts.net'' ''box.tail1234.ts.net'']\<rparr>"

definition named_world :: world where
  "named_world = snd (start_cloudflare_named env_yq ''3000'' ''web'' world0)"

text \<open>The machine with yq on which \<^verbatim>\<open>pgrep\<close> finds the first named tunnel process; the machine
  with a machine name that has a double quote in it; and a state directory holding a record
  whose method value has a stray double quote in it.\<close>

definition env_yq_again :: env where
  "env_yq_again = env_yq\<lparr>pgrep_run := (\<lambda>t. if t = ''dev'' then [4242] else [])\<rparr>"

definition env_quoted :: env where
  \<open>env_quoted = env0\<lparr>TUNNEL_MACHINE_NAME := ''a"b''\<rparr>\<close>

definition corrupt_world :: world where
  \<open>corrupt_world =
     world0\<lparr>files := [''old.json'' \<mapsto> ''{"method":"ng"rok","name":"old"}'' @ [CHR 0x0A]],
            procs := [77 \<mapsto> Quick_tunnel ''http://localhost:8080'']\<rparr>\<close>

text \<open>The world after \<^verbatim>\<open>tunnel.sh start 3000 web --method=cloudflare\<close> on the concrete machine,
  from the empty world.\<close>

definition started_world :: world where
  "started_world =
     \<lparr>files = [''dev.log'' \<mapsto> ''INF Requesting new quick Tunnel on trycloudflare.com...'',
               ''web.json'' \<mapsto> named_record ''web'' ''3000'' ''https://web-dev.example.com''
                                  ''web-dev.example.com'' ''dev'' 4242],
      configs = [''dev-config.yml'' \<mapsto>
                   \<lparr>tunnel = ''dev'', credentials_file = ''/home/u/.cloudflared/1f2e.json'',
                    ingress = [\<lparr>hostname_of = Some ''web-dev.example.com'',
                                 service = ''http://localhost:3000''\<rparr>,
                               catch_all_404]\<rparr>],
      procs = [4242 \<mapsto> Named_run ''dev-config.yml'' ''dev''],
      next_pid = 4243,
      calls = [Route_dns ''dev'' ''web-dev.example.com''],
      slept = 5,
      tty = [(LOG, ''Starting Cloudflare named tunnel for port 3000 -> web-dev.example.com...''),
             (SUCCESS, ''Cloudflare named tunnel created!''),
             (OUT, ''https://web-dev.example.com'')]\<rparr>"


subsection \<open>The states the script reaches\<close>


subsection \<open>Numerals that stay JSON when interpolated\<close>

text \<open>A decimal numeral of at most 15 digits with no leading zero is a JSON number that jq
  prints back digit for digit.\<close>

definition json_integer :: "string \<Rightarrow> bool" where
  "json_integer s =
     (s \<noteq> [] \<and> list_all is_digit s \<and> (s = ''0'' \<or> hd s \<noteq> CHR ''0'') \<and> length s \<le> 15)"

section \<open>Properties\<close>

subsection \<open>Port Allocator\<close>

lemma sint_succ:
  fixes port max_port :: port
  assumes "sint port < sint max_port"
  shows "sint (port + 1) = sint port + 1"
proof -
  have "sint max_port < 2 ^ (LENGTH(64) - 1)"
    by (rule sint_lt)
  with assms have "sint port + 1 < 2 ^ 63"
    by simp
  moreover have "- (2 ^ (LENGTH(64) - 1)) \<le> sint port"
    by (rule sint_ge)
  ultimately show ?thesis
    by (simp add: sint_word_ariths signed_take_bit_int_eq_self)
qed

lemma scan_ports_found:
  "scan_ports e port max_port = Inr p \<Longrightarrow>
     sint port \<le> sint p \<and> sint p < sint max_port \<and> port_free e p \<and>
     (\<forall>q. sint port \<le> sint q \<and> sint q < sint p \<longrightarrow> \<not> port_free e q)"
proof (induction e port max_port rule: scan_ports.induct)
  case (1 e port max_port)
  show ?case
  proof (cases "sint port < sint max_port")
    case False
    with "1.prems" show ?thesis by (simp add: scan_ports.simps [of e port])
  next
    case lt: True
    show ?thesis
    proof (cases "port_free e port")
      case True
      with lt "1.prems" have "p = port" by (simp add: port_free_def scan_ports.simps [of e port])
      with True lt show ?thesis by auto
    next
      case False
      with lt "1.prems" have rec: "scan_ports e (port + 1) max_port = Inr p"
        by (auto simp add: port_free_def scan_ports.simps [of e port])
      from False lt have ih: "sint (port + 1) \<le> sint p \<and> sint p < sint max_port \<and> port_free e p \<and>
         (\<forall>q. sint (port + 1) \<le> sint q \<and> sint q < sint p \<longrightarrow> \<not> port_free e q)"
        using "1.IH" rec by (simp add: port_free_def)
      have s: "sint (port + 1) = sint port + 1" using lt by (rule sint_succ)
      have "\<not> port_free e q" if "sint port \<le> sint q" "sint q < sint p" for q
      proof (cases "q = port")
        case True with False show ?thesis by simp
      next
        case False
        then have "sint q \<noteq> sint port" by (auto dest: signed_word_eqI)
        with that s have "sint (port + 1) \<le> sint q" by simp
        with ih that show ?thesis by blast
      qed
      with ih s show ?thesis by auto
    qed
  qed
qed

lemma scan_ports_none:
  "scan_ports e port max_port = Inl err \<Longrightarrow>
     err = No_port_available \<and>
     (\<forall>q. sint port \<le> sint q \<and> sint q < sint max_port \<longrightarrow> \<not> port_free e q)"
proof (induction e port max_port rule: scan_ports.induct)
  case (1 e port max_port)
  show ?case
  proof (cases "sint port < sint max_port")
    case False
    with "1.prems" show ?thesis by (auto simp add: scan_ports.simps [of e port])
  next
    case lt: True
    with "1.prems" have busy: "\<not> port_free e port"
      by (cases "port_free e port") (simp_all add: port_free_def scan_ports.simps [of e port])
    with lt "1.prems" have rec: "scan_ports e (port + 1) max_port = Inl err"
      by (auto simp add: port_free_def scan_ports.simps [of e port])
    from busy lt have ih: "err = No_port_available \<and>
         (\<forall>q. sint (port + 1) \<le> sint q \<and> sint q < sint max_port \<longrightarrow> \<not> port_free e q)"
      using "1.IH" rec by (simp add: port_free_def)
    have s: "sint (port + 1) = sint port + 1" using lt by (rule sint_succ)
    have "\<not> port_free e q" if "sint port \<le> sint q" "sint q < sint max_port" for q
    proof (cases "q = port")
      case True with busy show ?thesis by simp
    next
      case False
      then have "sint q \<noteq> sint port" by (auto dest: signed_word_eqI)
      with that s have "sint (port + 1) \<le> sint q" by simp
      with ih that show ?thesis by blast
    qed
    with ih show ?thesis by auto
  qed
qed

lemma sint_base_100:
  fixes base :: port
  assumes "0 \<le> sint base" "sint base \<le> 65535"
  shows "sint (base + 100) = sint base + 100"
  using assms by (simp add: sint_word_ariths signed_take_bit_int_eq_self)

text \<open>
  Claim C5.  For a base port in the range of TCP ports, \<^const>\<open>find_available_port\<close> scans
  \<^verbatim>\<open>base\<close>, \<^verbatim>\<open>base+1\<close>, ... in order: a port it returns lies in \<^verbatim>\<open>[base, base+100)\<close>, is reported
  free by both probes (\<^verbatim>\<open>ss\<close> and \<^verbatim>\<open>lsof\<close>), and every port of the range below it is reported in
  use by at least one of them; when it fails the failure is \<^const>\<open>No_port_available\<close> and no
  port of the range was free; and it fails whenever none of the 100 ports is free.
\<close>

theorem find_available_port_first_free:
  assumes "0 \<le> sint base" and "sint base \<le> 65535"
  shows "(\<forall>p. find_available_port e base = Inr p \<longrightarrow>
            sint base \<le> sint p \<and> sint p < sint base + 100 \<and>
            \<not> ss_listening e p \<and> \<not> lsof_open e p \<and>
            (\<forall>q. sint base \<le> sint q \<and> sint q < sint p \<longrightarrow> ss_listening e q \<or> lsof_open e q))
       \<and> (\<forall>err. find_available_port e base = Inl err \<longrightarrow>
            err = No_port_available \<and>
            (\<forall>q. sint base \<le> sint q \<and> sint q < sint base + 100 \<longrightarrow> ss_listening e q \<or> lsof_open e q))
       \<and> ((\<forall>q. sint base \<le> sint q \<and> sint q < sint base + 100 \<longrightarrow> ss_listening e q \<or> lsof_open e q)
            \<longrightarrow> find_available_port e base = Inl No_port_available)"
proof -
  have m: "sint (base + 100) = sint base + 100"
    using assms by (rule sint_base_100)
  have a: "sint base \<le> sint p \<and> sint p < sint base + 100 \<and>
            \<not> ss_listening e p \<and> \<not> lsof_open e p \<and>
            (\<forall>q. sint base \<le> sint q \<and> sint q < sint p \<longrightarrow> ss_listening e q \<or> lsof_open e q)"
    if "find_available_port e base = Inr p" for p
    using scan_ports_found [of e base "base + 100" p] that m
    by (simp add: find_available_port_def port_free_def)
  have b: "err = No_port_available \<and>
            (\<forall>q. sint base \<le> sint q \<and> sint q < sint base + 100 \<longrightarrow> ss_listening e q \<or> lsof_open e q)"
    if "find_available_port e base = Inl err" for err
    using scan_ports_none [of e base "base + 100" err] that m
    by (simp add: find_available_port_def port_free_def)
  have c: "find_available_port e base = Inl No_port_available"
    if busy: "\<forall>q. sint base \<le> sint q \<and> sint q < sint base + 100 \<longrightarrow> ss_listening e q \<or> lsof_open e q"
  proof (cases "find_available_port e base")
    case (Inl err)
    with b show ?thesis by simp
  next
    case (Inr p)
    from a [OF Inr] busy show ?thesis by blast
  qed
  from a b c show ?thesis by blast
qed

theorem find_available_port_first_free_witness:
  "(0::int) \<le> sint (3000 :: port) \<and> sint (3000 :: port) \<le> 65535 \<and>
   find_available_port env0 3000 = Inr 3003 \<and>
   sint (3000 :: port) \<le> sint (3003 :: port) \<and> sint (3003 :: port) < sint (3000 :: port) + 100 \<and>
   \<not> ss_listening env0 3003 \<and> \<not> lsof_open env0 3003"
proof -
  have h1: "(0::int) \<le> sint (3000 :: port)" by simp
  have h2: "sint (3000 :: port) \<le> 65535" by simp
  have r: "find_available_port env0 3000 = Inr 3003"
    by (simp add: find_available_port_def scan_ports.simps env0_def)
  from find_available_port_first_free [OF h1 h2, of env0] r
  have "sint (3000 :: port) \<le> sint (3003 :: port) \<and> sint (3003 :: port) < sint (3000 :: port) + 100 \<and>
        \<not> ss_listening env0 3003 \<and> \<not> lsof_open env0 3003"
    by blast
  with h1 h2 r show ?thesis by blast
qed

subsection \<open>Quick/ephemeral launcher\<close>

lemma dec_nonempty: "dec n \<noteq> []"
  by (subst dec.simps) simp

lemma digit_cases:
  "(d::nat) < 10 \<Longrightarrow> d = 0 \<or> d = 1 \<or> d = 2 \<or> d = 3 \<or> d = 4 \<or> d = 5 \<or> d = 6 \<or> d = 7 \<or> d = 8 \<or> d = 9"
  by arith

lemma is_digit_digit_char: "d < 10 \<Longrightarrow> is_digit (digit_char d)"
  by (drule digit_cases) (auto simp: digit_char_def is_digit_def)

lemma of_char_digit_char: "d < 10 \<Longrightarrow> (of_char (digit_char d) :: nat) - 48 = d"
  by (drule digit_cases) (auto simp: digit_char_def)

lemma dec_all_digits: "list_all is_digit (dec n)"
proof (induction n rule: dec.induct)
  case (1 n)
  show ?case
  proof (cases "n < 10")
    case True
    then show ?thesis by (subst dec.simps) (simp add: is_digit_digit_char)
  next
    case False
    with "1.IH" have "list_all is_digit (dec (n div 10))" by simp
    moreover have "is_digit (digit_char (n mod 10))"
      by (rule is_digit_digit_char) simp
    ultimately show ?thesis using False by (subst dec.simps) simp
  qed
qed

lemma dec_value: "foldl (\<lambda>n c. 10 * n + ((of_char c :: nat) - 48)) 0 (dec n) = n"
proof (induction n rule: dec.induct)
  case (1 n)
  show ?case
  proof (cases "n < 10")
    case True
    then show ?thesis by (subst dec.simps) (simp add: of_char_digit_char)
  next
    case False
    with "1.IH" have ih: "foldl (\<lambda>n c. 10 * n + ((of_char c :: nat) - 48)) 0 (dec (n div 10)) = n div 10"
      by simp
    have "(of_char (digit_char (n mod 10)) :: nat) - 48 = n mod 10"
      by (rule of_char_digit_char) simp
    then show ?thesis using False ih by (subst dec.simps) simp
  qed
qed

lemma nat_of_dec_dec: "nat_of_dec (dec n) = Some n"
  by (simp add: nat_of_dec_def dec_nonempty dec_all_digits dec_value)

lemma kill_dec:
  "kill (dec p) w = w\<lparr>calls := calls w @ [Kill (dec p)], procs := (procs w)(p := None)\<rparr>"
  by (simp add: kill_def call_def nat_of_dec_dec)

lemma wait_for_url_found:
  assumes "files w log_file \<noteq> None"
    and "waited \<le> i" and "i < 30" and "grep_url e i \<noteq> ''''"
    and "\<forall>j. waited \<le> j \<and> j < i \<longrightarrow> grep_url e j = ''''"
  shows "wait_for_url e log_file waited w = (grep_url e i, w\<lparr>slept := slept w + (i - waited)\<rparr>)"
  using assms
proof (induction e log_file waited w rule: wait_for_url.induct)
  case (1 e log_file waited w)
  from "1.prems" have lt: "waited < max_wait" by (simp add: max_wait_def)
  show ?case
  proof (cases "waited = i")
    case True
    with "1.prems" lt show ?thesis
      by (subst wait_for_url.simps) simp
  next
    case False
    with "1.prems" have less: "waited < i" and empty: "grep_url e waited = ''''"
      by auto
    have ex: "files (sleep 1 w) log_file \<noteq> None"
      using "1.prems"(1) by (simp add: sleep_def)
    have rest: "\<forall>j. waited + 1 \<le> j \<and> j < i \<longrightarrow> grep_url e j = ''''"
      using "1.prems"(5) by auto
    have "wait_for_url e log_file (waited + 1) (sleep 1 w)
          = (grep_url e i, (sleep 1 w)\<lparr>slept := slept (sleep 1 w) + (i - (waited + 1))\<rparr>)"
      using "1.IH" [of "''''"] lt empty "1.prems"(1) ex less "1.prems"(3,4) rest
      by simp
    with lt empty "1.prems"(1) less show ?thesis
      by (subst wait_for_url.simps) (simp add: sleep_def)
  qed
qed

lemma wait_for_url_timeout:
  assumes "waited \<le> 30"
    and "\<forall>j. waited \<le> j \<and> j < 30 \<longrightarrow> grep_url e j = ''''"
  shows "wait_for_url e log_file waited w = ('''', w\<lparr>slept := slept w + (30 - waited)\<rparr>)"
  using assms
proof (induction e log_file waited w rule: wait_for_url.induct)
  case (1 e log_file waited w)
  show ?case
  proof (cases "waited < max_wait")
    case False
    with "1.prems" have "waited = 30" by (simp add: max_wait_def)
    then show ?thesis by (subst wait_for_url.simps) (simp add: max_wait_def)
  next
    case lt: True
    then have lt30: "waited < 30" by (simp add: max_wait_def)
    with "1.prems" have empty: "grep_url e waited = ''''" by auto
    have rest: "\<forall>j. waited + 1 \<le> j \<and> j < 30 \<longrightarrow> grep_url e j = ''''"
      using "1.prems"(2) by auto
    have "wait_for_url e log_file (waited + 1) (sleep 1 w)
          = ('''', (sleep 1 w)\<lparr>slept := slept (sleep 1 w) + (30 - (waited + 1))\<rparr>)"
      using "1.IH" [of "''''"] lt empty lt30 rest by simp
    with lt lt30 empty show ?thesis
      by (subst wait_for_url.simps) (simp add: sleep_def)
  qed
qed

text \<open>
  Claim C3.  The quick launcher polls the log once per second, at most 30 times.  If the
  first poll that finds a URL is poll \<^verbatim>\<open>i < 30\<close>, it has slept \<^verbatim>\<open>i\<close> seconds, returns that URL,
  leaves the spawned process running and writes the record of the name: the JSON text
  with the method \<^verbatim>\<open>cloudflare_quick\<close>, the name, the local port, the URL and the pid of the
  spawned process.  If none of the 30 polls finds a URL, it has slept 30 seconds, ends the
  spawned process with \<^verbatim>\<open>kill\<close>, writes no record (only the log file is new) and fails.
\<close>

theorem quick_launcher_bounded_poll:
  \<open>(\<forall>i. i < 30 \<and> grep_url e i \<noteq> '''' \<and> (\<forall>j. j < i \<longrightarrow> grep_url e j = '''') \<longrightarrow>
      start_cloudflare_quick e local_port name w =
        (Inr (grep_url e i),
         w\<lparr>files := (files w)(name @ ''.log'' \<mapsto> proc_log e,
                               name @ ''.json'' \<mapsto>
                                 ''{"method":"cloudflare_quick","name":"'' @ name @
                                 ''","local_port":'' @ local_port @
                                 '',"url":"'' @ grep_url e i @
                                 ''","pid":'' @ dec (next_pid w) @ ''}'' @ [CHR 0x0A]),
           procs := (procs w)(next_pid w \<mapsto> Quick_tunnel (''http://localhost:'' @ local_port)),
           next_pid := Suc (next_pid w),
           slept := slept w + i,
           tty := tty w @ [(LOG, ''Starting Cloudflare quick tunnel for port '' @ local_port @ ''...''),
                           (SUCCESS, ''Cloudflare quick tunnel created!''),
                           (OUT, grep_url e i)]\<rparr>))
   \<and> ((\<forall>j. j < 30 \<longrightarrow> grep_url e j = '''') \<longrightarrow>
      start_cloudflare_quick e local_port name w =
        (Inl No_tunnel_url,
         w\<lparr>files := (files w)(name @ ''.log'' \<mapsto> proc_log e),
           procs := (procs w)(next_pid w := None),
           next_pid := Suc (next_pid w),
           calls := calls w @ [Kill (dec (next_pid w))],
           slept := slept w + 30,
           tty := tty w @ [(LOG, ''Starting Cloudflare quick tunnel for port '' @ local_port @ ''...''),
                           (ERROR, ''Failed to get tunnel URL''),
                           (DUMP, name @ ''.log'')]\<rparr>))\<close>
proof (intro conjI allI impI)
  fix i
  assume a: "i < 30 \<and> grep_url e i \<noteq> '''' \<and> (\<forall>j. j < i \<longrightarrow> grep_url e j = '''')"
  define w2 where "w2 = snd (spawn e (Quick_tunnel (''http://localhost:'' @ local_port)) (name @ ''.log'')
      (say LOG (''Starting Cloudflare quick tunnel for port '' @ local_port @ ''...'') w))"
  have ex: "files w2 (name @ ''.log'') \<noteq> None"
    by (simp add: w2_def spawn_def say_def)
  have "wait_for_url e (name @ ''.log'') 0 w2 = (grep_url e i, w2\<lparr>slept := slept w2 + (i - 0)\<rparr>)"
    using ex a by (intro wait_for_url_found) auto
  with a show \<open>start_cloudflare_quick e local_port name w =
        (Inr (grep_url e i),
         w\<lparr>files := (files w)(name @ ''.log'' \<mapsto> proc_log e,
                               name @ ''.json'' \<mapsto>
                                 ''{"method":"cloudflare_quick","name":"'' @ name @
                                 ''","local_port":'' @ local_port @
                                 '',"url":"'' @ grep_url e i @
                                 ''","pid":'' @ dec (next_pid w) @ ''}'' @ [CHR 0x0A]),
           procs := (procs w)(next_pid w \<mapsto> Quick_tunnel (''http://localhost:'' @ local_port)),
           next_pid := Suc (next_pid w),
           slept := slept w + i,
           tty := tty w @ [(LOG, ''Starting Cloudflare quick tunnel for port '' @ local_port @ ''...''),
                           (SUCCESS, ''Cloudflare quick tunnel created!''),
                           (OUT, grep_url e i)]\<rparr>)\<close>
    by (simp add: start_cloudflare_quick_def quick_record_def w2_def spawn_def say_def
          write_file_def Let_def)
next
  assume a: "\<forall>j. j < 30 \<longrightarrow> grep_url e j = ''''"
  define w2 where "w2 = snd (spawn e (Quick_tunnel (''http://localhost:'' @ local_port)) (name @ ''.log'')
      (say LOG (''Starting Cloudflare quick tunnel for port '' @ local_port @ ''...'') w))"
  have "wait_for_url e (name @ ''.log'') 0 w2 = ('''', w2\<lparr>slept := slept w2 + (30 - 0)\<rparr>)"
    using a by (intro wait_for_url_timeout) auto
  then show "start_cloudflare_quick e local_port name w =
        (Inl No_tunnel_url,
         w\<lparr>files := (files w)(name @ ''.log'' \<mapsto> proc_log e),
           procs := (procs w)(next_pid w := None),
           next_pid := Suc (next_pid w),
           calls := calls w @ [Kill (dec (next_pid w))],
           slept := slept w + 30,
           tty := tty w @ [(LOG, ''Starting Cloudflare quick tunnel for port '' @ local_port @ ''...''),
                           (ERROR, ''Failed to get tunnel URL''),
                           (DUMP, name @ ''.log'')]\<rparr>)"
    by (simp add: start_cloudflare_quick_def w2_def spawn_def say_def kill_dec Let_def)
qed

theorem quick_launcher_bounded_poll_witness:
  \<open>fst (start_cloudflare_quick env0 ''3000'' ''demo'' world0) = Inr ''https://abc.trycloudflare.com'' \<and>
   slept (snd (start_cloudflare_quick env0 ''3000'' ''demo'' world0)) = 2 \<and>
   procs (snd (start_cloudflare_quick env0 ''3000'' ''demo'' world0)) 4242
     = Some (Quick_tunnel ''http://localhost:3000'') \<and>
   calls (snd (start_cloudflare_quick env0 ''3000'' ''demo'' world0)) = [] \<and>
   files (snd (start_cloudflare_quick env0 ''3000'' ''demo'' world0)) ''demo.json''
     = Some (''{"method":"cloudflare_quick","name":"demo","local_port":3000,"url":"https://abc.trycloudflare.com","pid":4242}''
             @ [CHR 0x0A]) \<and>
   fst (start_cloudflare_quick env_silent ''3000'' ''demo'' world0) = Inl No_tunnel_url \<and>
   slept (snd (start_cloudflare_quick env_silent ''3000'' ''demo'' world0)) = 30 \<and>
   procs (snd (start_cloudflare_quick env_silent ''3000'' ''demo'' world0)) 4242 = None \<and>
   calls (snd (start_cloudflare_quick env_silent ''3000'' ''demo'' world0)) = [Kill ''4242''] \<and>
   files (snd (start_cloudflare_quick env_silent ''3000'' ''demo'' world0)) ''demo.json'' = None\<close>
proof -
  have p: "(2::nat) < 30 \<and> grep_url env0 2 \<noteq> '''' \<and> (\<forall>j. j < 2 \<longrightarrow> grep_url env0 j = '''')"
    by (simp add: env0_def)
  have q: "\<forall>j. j < 30 \<longrightarrow> grep_url env_silent j = ''''"
    by (simp add: env_silent_def)
  from quick_launcher_bounded_poll [of env0 "''3000''" "''demo''" world0] p
  have a: \<open>start_cloudflare_quick env0 ''3000'' ''demo'' world0 =
        (Inr (grep_url env0 2),
         world0\<lparr>files := (files world0)(''demo'' @ ''.log'' \<mapsto> proc_log env0,
                               ''demo'' @ ''.json'' \<mapsto>
                                 ''{"method":"cloudflare_quick","name":"'' @ ''demo'' @
                                 ''","local_port":'' @ ''3000'' @
                                 '',"url":"'' @ grep_url env0 2 @
                                 ''","pid":'' @ dec (next_pid world0) @ ''}'' @ [CHR 0x0A]),
           procs := (procs world0)(next_pid world0 \<mapsto> Quick_tunnel (''http://localhost:'' @ ''3000'')),
           next_pid := Suc (next_pid world0),
           slept := slept world0 + 2,
           tty := tty world0 @ [(LOG, ''Starting Cloudflare quick tunnel for port '' @ ''3000'' @ ''...''),
                           (SUCCESS, ''Cloudflare quick tunnel created!''),
                           (OUT, grep_url env0 2)]\<rparr>)\<close>
    by blast
  from quick_launcher_bounded_poll [of env_silent "''3000''" "''demo''" world0] q
  have b: "start_cloudflare_quick env_silent ''3000'' ''demo'' world0 =
        (Inl No_tunnel_url,
         world0\<lparr>files := (files world0)(''demo'' @ ''.log'' \<mapsto> proc_log env_silent),
           procs := (procs world0)(next_pid world0 := None),
           next_pid := Suc (next_pid world0),
           calls := calls world0 @ [Kill (dec (next_pid world0))],
           slept := slept world0 + 30,
           tty := tty world0 @ [(LOG, ''Starting Cloudflare quick tunnel for port '' @ ''3000'' @ ''...''),
                           (ERROR, ''Failed to get tunnel URL''),
                           (DUMP, ''demo'' @ ''.log'')]\<rparr>)"
    by blast
  show ?thesis
    unfolding a b by (simp add: env0_def env_silent_def world0_def dec.simps digit_char_def)
qed

subsection \<open>Evaluation on the concrete machine\<close>

lemmas jq_eval =
  jq_r_def json_object_def json_members.simps skip_ws_def json_ws_def json_value_def
  json_atom_def read_cons_def plain_char_def is_digit_def unescape_def cmd_subst_def

lemmas world_eval =
  say_def sleep_def call_def write_file_def rm_f_def spawn_def kill_def pkill_def
  nat_of_dec_def Let_def

lemmas launcher_eval =
  cmd_start_def start_args_def default_name_def select_method_def announce_def
  cmd_stop_def cmd_stop_all_def dispatch_def start_cloudflare_quick_def
  start_cloudflare_named_def start_tailscale_funnel_def update_config_def
  ensure_tunnel_def ensure_dns_route_def restart_existing_def run_tunnel_def
  ingress_accepted_def
  tunnel_name_of_def derived_hostname_def creds_file_of_def config_file_of_def
  get_machine_name_def wait_for_url.simps max_wait_def quick_record_def named_record_def
  tailscale_record_def dec.simps digit_char_def STATE_DIR_def CLOUDFLARED_CONFIG_DIR_def
  stop_tunnel_def stop_all_tunnels_def glob_star_json_def ends_with_def

lemmas machine_eval =
  env0_def world0_def env_yq_def env_again_def env_dying_def env_nocreds_def env_silent_def
  env_yq_again_def

subsection \<open>Tunnel Stopper\<close>

text \<open>
  Claim C8.  For a name with no record file, \<^const>\<open>stop_tunnel\<close> returns status 0 and the world
  it leaves is the world it found with one warning added to the terminal: no file, process,
  configuration or backend command is touched.
\<close>

theorem stop_tunnel_absent_is_noop:
  "files w (name @ ''.json'') = None \<Longrightarrow>
   stop_tunnel e name w =
     (Inr (), w\<lparr>tty := tty w @ [(WARNING, ''No tunnel found with name: '' @ name)]\<rparr>)"
  by (simp add: stop_tunnel_def say_def)

theorem stop_tunnel_absent_is_noop_witness:
  "files world0 (''demo'' @ ''.json'') = None \<and>
   stop_tunnel env0 ''demo'' world0 =
     (Inr (), world0\<lparr>tty := tty world0 @ [(WARNING, ''No tunnel found with name: '' @ ''demo'')]\<rparr>)"
proof -
  have h: "files world0 (''demo'' @ ''.json'') = None"
    by (simp add: world0_def)
  from h stop_tunnel_absent_is_noop [OF h, of env0] show ?thesis
    by blast
qed

text \<open>
  Claim C10, as amended.  For a record that jq reads (it exits 0 on \<^verbatim>\<open>.method\<close>) and whose
  \<^verbatim>\<open>method\<close>, as jq prints it, is none of \<^verbatim>\<open>tailscale\<close>, \<^verbatim>\<open>cloudflare_quick\<close>,
  \<^verbatim>\<open>cloudflare_named\<close>, \<^const>\<open>stop_tunnel\<close> returns status 0 and changes the world in two places
  only: the record file is removed and the success line is printed.  No backend command
  is issued and no process is signalled.  (An empty record file is such a record: jq
  prints nothing for it.)
\<close>

theorem stop_tunnel_unrecognized_method:
  assumes "files w (name @ ''.json'') = Some text"
    and "jq_r e ''method'' text = Some out"
    and "cmd_subst out \<noteq> ''tailscale''"
    and "cmd_subst out \<noteq> ''cloudflare_quick''"
    and "cmd_subst out \<noteq> ''cloudflare_named''"
  shows "stop_tunnel e name w =
     (Inr (),
      w\<lparr>files := (files w)(name @ ''.json'' := None),
        tty := tty w @ [(SUCCESS, ''Tunnel '' @ [CHR 0x27] @ name @ [CHR 0x27] @ '' stopped'')]\<rparr>)"
  using assms by (simp add: stop_tunnel_def say_def rm_f_def Let_def)

lemma jq_ngrok:
  \<open>jq_r env0 ''method'' (''{"method":"ngrok","name":"old"}'' @ [CHR 0x0A]) = Some (''ngrok'' @ [CHR 0x0A])\<close>
  by (simp add: jq_eval env0_def)

theorem stop_tunnel_unrecognized_method_witness:
  "fst (stop_tunnel env0 ''old'' ngrok_world) = Inr () \<and>
   files (snd (stop_tunnel env0 ''old'' ngrok_world)) ''old.json'' = None \<and>
   calls (snd (stop_tunnel env0 ''old'' ngrok_world)) = [] \<and>
   procs (snd (stop_tunnel env0 ''old'' ngrok_world)) 77 = Some (Quick_tunnel ''http://localhost:8080'')"
proof -
  have h1: \<open>files ngrok_world (''old'' @ ''.json'') = Some (''{"method":"ngrok","name":"old"}'' @ [CHR 0x0A])\<close>
    by (simp add: ngrok_world_def)
  have h3: "cmd_subst (''ngrok'' @ [CHR 0x0A]) \<noteq> ''tailscale''"
    and h4: "cmd_subst (''ngrok'' @ [CHR 0x0A]) \<noteq> ''cloudflare_quick''"
    and h5: "cmd_subst (''ngrok'' @ [CHR 0x0A]) \<noteq> ''cloudflare_named''"
    by (simp_all add: cmd_subst_def)
  show ?thesis
    unfolding stop_tunnel_unrecognized_method [OF h1 jq_ngrok h3 h4 h5]
    by (simp add: ngrok_world_def world0_def)
qed

text \<open>
  Claim C10 as stated fails: a method value corrupted with a stray double quote,
  \<^verbatim>\<open>{"method":"ng"rok","name":"old"}\<close>, is none of the three methods, and \<^verbatim>\<open>tunnel.sh stop old\<close>
  ends at the jq call of line 360 under \<^verbatim>\<open>set -e\<close>: the status is not 0, nothing is printed,
  and the record is still in the state directory.
\<close>

theorem stop_keeps_record_with_corrupted_method:
  \<open>files corrupt_world ''old.json'' = Some (''{"method":"ng"rok","name":"old"}'' @ [CHR 0x0A]) \<and>
   cmd_stop env0 [''old''] corrupt_world = (Inl (Errexit ''jq''), corrupt_world)\<close>
  by (simp add: cmd_stop_def stop_tunnel_def jq_eval env0_def corrupt_world_def world0_def)

text \<open>
  Claim C1, at the name \<^verbatim>\<open>a"b\<close>.  \<^verbatim>\<open>tunnel.sh start 3000 'a"b' --method=quick\<close> succeeds and
  writes the record with the name interpolated unescaped, so the record is not JSON;
  \<^verbatim>\<open>tunnel.sh stop 'a"b'\<close> then ends at the first jq call under \<^verbatim>\<open>set -e\<close>, before \<^verbatim>\<open>rm -f\<close>, and
  the record is still in the state directory.
\<close>

theorem start_then_stop_quoted_name_keeps_record:
  \<open>fst (cmd_start env0 [''3000'', ''a"b'', ''--method=quick''] world0) = Inr ''https://abc.trycloudflare.com'' \<and>
   fst (cmd_stop env0 [''a"b''] (snd (cmd_start env0 [''3000'', ''a"b'', ''--method=quick''] world0)))
     = Inl (Errexit ''jq'') \<and>
   files (snd (cmd_stop env0 [''a"b''] (snd (cmd_start env0 [''3000'', ''a"b'', ''--method=quick''] world0))))
     ''a"b.json''
     = Some (quick_record ''a"b'' ''3000'' ''https://abc.trycloudflare.com'' 4242)\<close>
  by (simp add: launcher_eval world_eval jq_eval machine_eval)

text \<open>
  Claim C7, at the name \<^verbatim>\<open>.x\<close>.  \<^verbatim>\<open>tunnel.sh start 3000 .x --method=quick\<close> succeeds and writes
  \<^verbatim>\<open>.x.json\<close>; \<^verbatim>\<open>tunnel.sh stop-all\<close> returns status 0 and the record is still there, because
  the pattern \<^verbatim>\<open>*.json\<close> matches no name that starts with a dot.
\<close>

theorem stop_all_keeps_dot_record:
  \<open>fst (cmd_start env0 [''3000'', ''.x'', ''--method=quick''] world0) = Inr ''https://abc.trycloudflare.com'' \<and>
   fst (cmd_stop_all env0 (snd (cmd_start env0 [''3000'', ''.x'', ''--method=quick''] world0))) = Inr () \<and>
   files (snd (cmd_stop_all env0 (snd (cmd_start env0 [''3000'', ''.x'', ''--method=quick''] world0)))) ''.x.json''
     = Some (quick_record ''.x'' ''3000'' ''https://abc.trycloudflare.com'' 4242)\<close>
  by (simp add: launcher_eval world_eval jq_eval machine_eval)

text \<open>
  Claim C4, on a machine with yq.  After \<^verbatim>\<open>start 3000 web --method=cloudflare\<close> and
  \<^verbatim>\<open>stop web\<close>, the record is removed and the routing configuration is what the start
  wrote: the ingress rule of \<^verbatim>\<open>web-dev.example.com\<close> is still in it.
\<close>

theorem stop_named_keeps_ingress_rule:
  "fst (cmd_start env_yq [''3000'', ''web'', ''--method=cloudflare''] world0) = Inr ''https://web-dev.example.com'' \<and>
   fst (cmd_stop env_yq [''web''] (snd (cmd_start env_yq [''3000'', ''web'', ''--method=cloudflare''] world0)))
     = Inr () \<and>
   files (snd (cmd_stop env_yq [''web''] (snd (cmd_start env_yq [''3000'', ''web'', ''--method=cloudflare''] world0))))
     ''web.json'' = None \<and>
   configs (snd (cmd_stop env_yq [''web''] (snd (cmd_start env_yq [''3000'', ''web'', ''--method=cloudflare''] world0))))
     ''dev-config.yml''
     = Some \<lparr>tunnel = ''dev'', credentials_file = ''/home/u/.cloudflared/1f2e.json'',
             ingress = [\<lparr>hostname_of = Some ''web-dev.example.com'', service = ''http://localhost:3000''\<rparr>,
                        catch_all_404]\<rparr>"
  by (simp add: launcher_eval world_eval jq_eval machine_eval catch_all_404_def)

subsection \<open>Tunnel Orchestrator\<close>

lemma ends_with_iff: "ends_with s f \<longleftrightarrow> (\<exists>p. f = p @ s)"
proof
  assume "ends_with s f"
  then have "f = take (length f - length s) f @ s"
    by (metis append_take_drop_id ends_with_def)
  then show "\<exists>p. f = p @ s" ..
next
  assume "\<exists>p. f = p @ s"
  then show "ends_with s f" by (auto simp: ends_with_def)
qed

lemma not_json_log: "\<not> ends_with ''.json'' (x @ ''.log'')"
proof
  assume "ends_with ''.json'' (x @ ''.log'')"
  then obtain p where "x @ ''.log'' = p @ ''.json''"
    by (auto simp: ends_with_iff)
  then have "last (x @ ''.log'') = last (p @ ''.json'')" by simp
  then show False by simp
qed

lemma json_not_log: "ends_with ''.json'' f \<Longrightarrow> f \<noteq> x @ ''.log''"
  using not_json_log by blast

lemma wait_for_url_only_sleeps:
  "\<exists>n. snd (wait_for_url e log_file waited w) = w\<lparr>slept := slept w + n\<rparr>"
proof (induction e log_file waited w rule: wait_for_url.induct)
  case (1 e log_file waited w)
  show ?case
  proof (cases "waited < max_wait \<and> (if files w log_file \<noteq> None then grep_url e waited else '''') = ''''")
    case True
    then have "\<exists>n. snd (wait_for_url e log_file (waited + 1) (sleep 1 w))
                  = (sleep 1 w)\<lparr>slept := slept (sleep 1 w) + n\<rparr>"
      using "1.IH" [of "''''"] by (auto split: if_splits)
    then obtain n where "snd (wait_for_url e log_file (waited + 1) (sleep 1 w))
                  = w\<lparr>slept := slept w + (1 + n)\<rparr>"
      by (auto simp: sleep_def)
    with True have "snd (wait_for_url e log_file waited w) = w\<lparr>slept := slept w + (1 + n)\<rparr>"
      by (subst wait_for_url.simps) (auto simp: Let_def split: if_splits)
    then show ?thesis by (rule exI [of _ "1 + n"])
  next
    case False
    then have "snd (wait_for_url e log_file waited w) = w\<lparr>slept := slept w + 0\<rparr>"
      by (subst wait_for_url.simps) (auto simp: Let_def)
    then show ?thesis by (rule exI [of _ 0])
  qed
qed

lemma tailscale_failure_keeps_files:
  "fst (start_tailscale_funnel e p n a w) = Inl err \<Longrightarrow>
   files (snd (start_tailscale_funnel e p n a w)) = files w"
  by (auto simp: start_tailscale_funnel_def world_eval split: if_splits)

lemma quick_failure_keeps_records:
  assumes "fst (start_cloudflare_quick e p n w) = Inl err" and "ends_with ''.json'' f"
  shows "files (snd (start_cloudflare_quick e p n w)) f = files w f"
proof -
  define w2 where "w2 = snd (spawn e (Quick_tunnel (''http://localhost:'' @ p)) (n @ ''.log'')
      (say LOG (''Starting Cloudflare quick tunnel for port '' @ p @ ''...'') w))"
  obtain k where k: "snd (wait_for_url e (n @ ''.log'') 0 w2) = w2\<lparr>slept := slept w2 + k\<rparr>"
    using wait_for_url_only_sleeps by blast
  obtain u w3 where r: "wait_for_url e (n @ ''.log'') 0 w2 = (u, w3)"
    by (cases "wait_for_url e (n @ ''.log'') 0 w2")
  with k have w3: "w3 = w2\<lparr>slept := slept w2 + k\<rparr>" by simp
  from assms(1) r have "u = ''''"
    by (auto simp: start_cloudflare_quick_def w2_def spawn_def say_def Let_def split: if_splits)
  with r w3 json_not_log [OF assms(2), of n] show ?thesis
    by (simp add: start_cloudflare_quick_def w2_def spawn_def say_def Let_def kill_def call_def
          split: option.splits)
qed

lemma kill_keeps_files: "files (kill t w) = files w"
  by (simp add: kill_def call_def Let_def split: option.splits)

lemma ensure_tunnel_keeps_files: "files (snd (ensure_tunnel e tn w)) = files w"
  by (simp add: ensure_tunnel_def say_def call_def Let_def)

lemma ensure_dns_route_keeps_files: "files (ensure_dns_route e tn h w) = files w"
  by (simp add: ensure_dns_route_def say_def call_def Let_def)

lemma update_config_keeps_files: "files (update_config e cf tn cr h p w) = files w"
  by (simp add: update_config_def Let_def split: option.splits)

lemma restart_existing_keeps_files: "files (restart_existing e tn w) = files w"
  by (simp add: restart_existing_def sleep_def say_def kill_keeps_files Let_def)

lemma run_tunnel_failure_files:
  "fst (run_tunnel e p n tn h cf w) = Inl err \<Longrightarrow>
   files (snd (run_tunnel e p n tn h cf w)) = (files w)(tn @ ''.log'' \<mapsto> proc_log e)"
  by (cases "alive_after_settle e \<and> ingress_accepted (configs w cf)")
     (simp_all add: run_tunnel_def spawn_def sleep_def say_def Let_def)

lemma named_failure_keeps_records:
  assumes "fst (start_cloudflare_named e p n w) = Inl err" and "ends_with ''.json'' f"
  shows "files (snd (start_cloudflare_named e p n w)) f = files w f"
proof -
  have nl: "f \<noteq> tunnel_name_of e @ ''.log''"
    using assms(2) by (rule json_not_log)
  define w1 where "w1 = say LOG (''Starting Cloudflare named tunnel for port '' @ p @ '' -> ''
      @ derived_hostname e n @ ''...'') w"
  obtain created w2 where et: "ensure_tunnel e (tunnel_name_of e) w1 = (created, w2)"
    by (cases "ensure_tunnel e (tunnel_name_of e) w1")
  have f2: "files w2 = files w"
    using ensure_tunnel_keeps_files [of e "tunnel_name_of e" w1] et by (simp add: w1_def say_def)
  define w5 where "w5 = restart_existing e (tunnel_name_of e)
      (update_config e (config_file_of e) (tunnel_name_of e) (creds_file_of e) (derived_hostname e n) p
         (ensure_dns_route e (tunnel_name_of e) (derived_hostname e n) w2))"
  have f5: "files w5 = files w"
    by (simp add: w5_def restart_existing_keeps_files update_config_keeps_files
          ensure_dns_route_keeps_files f2)
  show ?thesis
  proof (cases "CLOUDFLARE_TUNNEL_DOMAIN e \<noteq> '''' \<and> created \<and> tunnel_id_of e (tunnel_name_of e) \<noteq> ''''
                \<and> creds_present e (creds_file_of e)")
    case True
    then have eq: "start_cloudflare_named e p n w
        = run_tunnel e p n (tunnel_name_of e) (derived_hostname e n) (config_file_of e) w5"
      using et by (simp add: start_cloudflare_named_def w1_def w5_def Let_def)
    with assms(1) have "fst (run_tunnel e p n (tunnel_name_of e) (derived_hostname e n) (config_file_of e) w5) = Inl err"
      by simp
    from run_tunnel_failure_files [OF this] eq f5 nl show ?thesis by simp
  next
    case False
    then show ?thesis
      using et f2
      by (auto simp: start_cloudflare_named_def w1_def Let_def say_def
            ensure_dns_route_keeps_files)
  qed
qed

lemma dispatch_failure_keeps_records:
  assumes "fst (dispatch e m p n w) = Inl err" and "ends_with ''.json'' f"
  shows "files (snd (dispatch e m p n w)) f = files w f"
proof (cases "m = ''tailscale''")
  case True
  then have "dispatch e m p n w = start_tailscale_funnel e p n '''' w"
    by (simp add: dispatch_def)
  with assms(1) tailscale_failure_keeps_files [of e p n "''''" w err] show ?thesis
    by simp
next
  case nt: False
  show ?thesis
  proof (cases "m = ''cloudflare'' \<or> m = ''cloudflare_named''")
    case True
    with nt have "dispatch e m p n w = start_cloudflare_named e p n w"
      by (simp add: dispatch_def)
    with assms named_failure_keeps_records [of e p n w err f] show ?thesis
      by simp
  next
    case nn: False
    show ?thesis
    proof (cases "m = ''cloudflare_quick'' \<or> m = ''quick''")
      case True
      with nt nn have "dispatch e m p n w = start_cloudflare_quick e p n w"
        by (simp add: dispatch_def)
      with assms quick_failure_keeps_records [of e p n w err f] show ?thesis
        by simp
    next
      case False
      with nt nn show ?thesis
        by (simp add: dispatch_def say_def)
    qed
  qed
qed

lemma announce_lines:
  "\<exists>lines. announce e port method0 method w = w\<lparr>tty := tty w @ lines\<rparr>"
proof (cases "method0 = ''''")
  case True
  show ?thesis
  proof (cases "ss_listening_on e port")
    case True
    with \<open>method0 = ''''\<close>
    have "announce e port method0 method w = w\<lparr>tty := tty w @ [(LOG, ''Auto-selected method: '' @ method)]\<rparr>"
      by (simp add: announce_def say_def)
    then show ?thesis ..
  next
    case False
    with \<open>method0 = ''''\<close>
    have "announce e port method0 method w
        = w\<lparr>tty := tty w @ [(LOG, ''Auto-selected method: '' @ method),
                             (WARNING, ''Nothing is listening on port '' @ port),
                             (OUT, ''Make sure your dev server is running first'')]\<rparr>"
      by (simp add: announce_def say_def)
    then show ?thesis ..
  qed
next
  case given: False
  show ?thesis
  proof (cases "ss_listening_on e port")
    case True
    with given have "announce e port method0 method w = w\<lparr>tty := tty w @ []\<rparr>"
      by (simp add: announce_def say_def)
    then show ?thesis ..
  next
    case False
    with given
    have "announce e port method0 method w
        = w\<lparr>tty := tty w @ [(WARNING, ''Nothing is listening on port '' @ port),
                             (OUT, ''Make sure your dev server is running first'')]\<rparr>"
      by (simp add: announce_def say_def)
    then show ?thesis ..
  qed
qed

lemma announce_keeps_files: "files (announce e port method0 method w) = files w"
  by (simp add: announce_def say_def)

lemma cmd_start_failure_keeps_records:
  assumes "fst (cmd_start e args w) = Inl err" and "ends_with ''.json'' f"
  shows "files (snd (cmd_start e args w)) f = files w f"
proof -
  obtain p n1 m0 where sa: "start_args args = (p, n1, m0)"
    by (cases "start_args args")
  show ?thesis
  proof (cases "p = ''''")
    case True
    with sa show ?thesis
      by (simp add: cmd_start_def say_def)
  next
    case port: False
    show ?thesis
    proof (cases "select_method e m0")
      case None
      with sa port show ?thesis
        by (simp add: cmd_start_def)
    next
      case (Some m)
      with sa port have eq: "cmd_start e args w
          = dispatch e m p (default_name p n1) (announce e p m0 m w)"
        by (simp add: cmd_start_def)
      with assms(1) have "fst (dispatch e m p (default_name p n1) (announce e p m0 m w)) = Inl err"
        by simp
      from dispatch_failure_keeps_records [OF this assms(2)] eq show ?thesis
        by (simp add: announce_keeps_files)
    qed
  qed
qed

text \<open>
  Claim C6, as amended.  When \<^const>\<open>cmd_start\<close> fails, every file \<^verbatim>\<open>*.json\<close> of the state
  directory is as it was: no record is created, changed or removed.  What \<^const>\<open>cmd_start\<close>
  returns, status and error and world, is decided by its arguments as follows.  With no
  port it is the usage error.  With no method given and a \<^verbatim>\<open>cmd_detect\<close> that jq ends, it is
  the \<^verbatim>\<open>set -e\<close> exit, with nothing changed.  With the method \<^verbatim>\<open>tailscale\<close>, \<^verbatim>\<open>cloudflare\<close> or
  \<^verbatim>\<open>cloudflare_named\<close>, \<^verbatim>\<open>cloudflare_quick\<close> or \<^verbatim>\<open>quick\<close>, it is exactly what the launcher of
  that method returns for the port and the name, run on the world that \<^const>\<open>cmd_start\<close> found
  with nothing but its own terminal lines added: the launcher's error is returned as it
  is.  With any other method it is the unknown-method error.  Nothing is said of the other
  durable state (the routing configuration, the log files, the backend's own resources).
\<close>

theorem failed_start_persists_no_record:
  assumes "fst (cmd_start e args w) = Inl err"
  shows "(\<forall>f. ends_with ''.json'' f \<longrightarrow> files (snd (cmd_start e args w)) f = files w f)
       \<and> (\<forall>port name1 method0.
            start_args args = (port, name1, method0) \<longrightarrow>
              (port = '''' \<longrightarrow>
                 cmd_start e args w
                   = (Inl Usage,
                      say ERROR ''Usage: tunnel.sh start <port> [name] [--method=tailscale|cloudflare|cloudflare_quick]'' w))
            \<and> (port \<noteq> '''' \<and> select_method e method0 = None \<longrightarrow>
                 cmd_start e args w = (Inl (Errexit ''cmd_detect''), w))
            \<and> (\<forall>method.
                 port \<noteq> '''' \<and> select_method e method0 = Some method \<longrightarrow>
                   (method = ''tailscale'' \<longrightarrow>
                      cmd_start e args w
                        = start_tailscale_funnel e port (default_name port name1) ''''
                            (announce e port method0 method w))
                 \<and> (method = ''cloudflare'' \<or> method = ''cloudflare_named'' \<longrightarrow>
                      cmd_start e args w
                        = start_cloudflare_named e port (default_name port name1)
                            (announce e port method0 method w))
                 \<and> (method = ''cloudflare_quick'' \<or> method = ''quick'' \<longrightarrow>
                      cmd_start e args w
                        = start_cloudflare_quick e port (default_name port name1)
                            (announce e port method0 method w))
                 \<and> (method \<noteq> ''tailscale'' \<and> method \<noteq> ''cloudflare'' \<and> method \<noteq> ''cloudflare_named''
                      \<and> method \<noteq> ''cloudflare_quick'' \<and> method \<noteq> ''quick'' \<longrightarrow>
                      cmd_start e args w
                        = (Inl (Unknown_method method),
                           say OUT ''Available methods: tailscale, cloudflare, cloudflare_quick''
                             (say ERROR (''Unknown method: '' @ method)
                                (announce e port method0 method w))))))
       \<and> (\<forall>port method0 method. \<exists>lines. announce e port method0 method w = w\<lparr>tty := tty w @ lines\<rparr>)"
proof (intro conjI)
  show "\<forall>f. ends_with ''.json'' f \<longrightarrow> files (snd (cmd_start e args w)) f = files w f"
    using cmd_start_failure_keeps_records [OF assms] by simp
next
  show "\<forall>port method0 method. \<exists>lines. announce e port method0 method w = w\<lparr>tty := tty w @ lines\<rparr>"
    using announce_lines by simp
next
  show "\<forall>port name1 method0.
            start_args args = (port, name1, method0) \<longrightarrow>
              (port = '''' \<longrightarrow>
                 cmd_start e args w
                   = (Inl Usage,
                      say ERROR ''Usage: tunnel.sh start <port> [name] [--method=tailscale|cloudflare|cloudflare_quick]'' w))
            \<and> (port \<noteq> '''' \<and> select_method e method0 = None \<longrightarrow>
                 cmd_start e args w = (Inl (Errexit ''cmd_detect''), w))
            \<and> (\<forall>method.
                 port \<noteq> '''' \<and> select_method e method0 = Some method \<longrightarrow>
                   (method = ''tailscale'' \<longrightarrow>
                      cmd_start e args w
                        = start_tailscale_funnel e port (default_name port name1) ''''
                            (announce e port method0 method w))
                 \<and> (method = ''cloudflare'' \<or> method = ''cloudflare_named'' \<longrightarrow>
                      cmd_start e args w
                        = start_cloudflare_named e port (default_name port name1)
                            (announce e port method0 method w))
                 \<and> (method = ''cloudflare_quick'' \<or> method = ''quick'' \<longrightarrow>
                      cmd_start e args w
                        = start_cloudflare_quick e port (default_name port name1)
                            (announce e port method0 method w))
                 \<and> (method \<noteq> ''tailscale'' \<and> method \<noteq> ''cloudflare'' \<and> method \<noteq> ''cloudflare_named''
                      \<and> method \<noteq> ''cloudflare_quick'' \<and> method \<noteq> ''quick'' \<longrightarrow>
                      cmd_start e args w
                        = (Inl (Unknown_method method),
                           say OUT ''Available methods: tailscale, cloudflare, cloudflare_quick''
                             (say ERROR (''Unknown method: '' @ method)
                                (announce e port method0 method w)))))"
  proof (intro allI impI)
    fix port name1 method0
    assume sa: "start_args args = (port, name1, method0)"
    have usage: "port = '''' \<longrightarrow>
                 cmd_start e args w
                   = (Inl Usage,
                      say ERROR ''Usage: tunnel.sh start <port> [name] [--method=tailscale|cloudflare|cloudflare_quick]'' w)"
      using sa by (simp add: cmd_start_def)
    have detect: "port \<noteq> '''' \<and> select_method e method0 = None \<longrightarrow>
                 cmd_start e args w = (Inl (Errexit ''cmd_detect''), w)"
      using sa by (simp add: cmd_start_def)
    have launch: "\<forall>method. port \<noteq> '''' \<and> select_method e method0 = Some method \<longrightarrow>
                 (method = ''tailscale'' \<longrightarrow>
                      cmd_start e args w
                        = start_tailscale_funnel e port (default_name port name1) ''''
                            (announce e port method0 method w))
                 \<and> (method = ''cloudflare'' \<or> method = ''cloudflare_named'' \<longrightarrow>
                      cmd_start e args w
                        = start_cloudflare_named e port (default_name port name1)
                            (announce e port method0 method w))
                 \<and> (method = ''cloudflare_quick'' \<or> method = ''quick'' \<longrightarrow>
                      cmd_start e args w
                        = start_cloudflare_quick e port (default_name port name1)
                            (announce e port method0 method w))
                 \<and> (method \<noteq> ''tailscale'' \<and> method \<noteq> ''cloudflare'' \<and> method \<noteq> ''cloudflare_named''
                      \<and> method \<noteq> ''cloudflare_quick'' \<and> method \<noteq> ''quick'' \<longrightarrow>
                      cmd_start e args w
                        = (Inl (Unknown_method method),
                           say OUT ''Available methods: tailscale, cloudflare, cloudflare_quick''
                             (say ERROR (''Unknown method: '' @ method)
                                (announce e port method0 method w))))"
    proof (intro allI impI)
      fix m
      assume "port \<noteq> '''' \<and> select_method e method0 = Some m"
      with sa have eq: "cmd_start e args w
          = dispatch e m port (default_name port name1) (announce e port method0 m w)"
        by (simp add: cmd_start_def)
      show "(m = ''tailscale'' \<longrightarrow>
                      cmd_start e args w
                        = start_tailscale_funnel e port (default_name port name1) ''''
                            (announce e port method0 m w))
                 \<and> (m = ''cloudflare'' \<or> m = ''cloudflare_named'' \<longrightarrow>
                      cmd_start e args w
                        = start_cloudflare_named e port (default_name port name1)
                            (announce e port method0 m w))
                 \<and> (m = ''cloudflare_quick'' \<or> m = ''quick'' \<longrightarrow>
                      cmd_start e args w
                        = start_cloudflare_quick e port (default_name port name1)
                            (announce e port method0 m w))
                 \<and> (m \<noteq> ''tailscale'' \<and> m \<noteq> ''cloudflare'' \<and> m \<noteq> ''cloudflare_named''
                      \<and> m \<noteq> ''cloudflare_quick'' \<and> m \<noteq> ''quick'' \<longrightarrow>
                      cmd_start e args w
                        = (Inl (Unknown_method m),
                           say OUT ''Available methods: tailscale, cloudflare, cloudflare_quick''
                             (say ERROR (''Unknown method: '' @ m)
                                (announce e port method0 m w))))"
        unfolding eq by (simp add: dispatch_def)
    qed
    from usage detect launch
    show "(port = '''' \<longrightarrow>
                 cmd_start e args w
                   = (Inl Usage,
                      say ERROR ''Usage: tunnel.sh start <port> [name] [--method=tailscale|cloudflare|cloudflare_quick]'' w))
            \<and> (port \<noteq> '''' \<and> select_method e method0 = None \<longrightarrow>
                 cmd_start e args w = (Inl (Errexit ''cmd_detect''), w))
            \<and> (\<forall>method.
                 port \<noteq> '''' \<and> select_method e method0 = Some method \<longrightarrow>
                   (method = ''tailscale'' \<longrightarrow>
                      cmd_start e args w
                        = start_tailscale_funnel e port (default_name port name1) ''''
                            (announce e port method0 method w))
                 \<and> (method = ''cloudflare'' \<or> method = ''cloudflare_named'' \<longrightarrow>
                      cmd_start e args w
                        = start_cloudflare_named e port (default_name port name1)
                            (announce e port method0 method w))
                 \<and> (method = ''cloudflare_quick'' \<or> method = ''quick'' \<longrightarrow>
                      cmd_start e args w
                        = start_cloudflare_quick e port (default_name port name1)
                            (announce e port method0 method w))
                 \<and> (method \<noteq> ''tailscale'' \<and> method \<noteq> ''cloudflare'' \<and> method \<noteq> ''cloudflare_named''
                      \<and> method \<noteq> ''cloudflare_quick'' \<and> method \<noteq> ''quick'' \<longrightarrow>
                      cmd_start e args w
                        = (Inl (Unknown_method method),
                           say OUT ''Available methods: tailscale, cloudflare, cloudflare_quick''
                             (say ERROR (''Unknown method: '' @ method)
                                (announce e port method0 method w)))))"
      by (intro conjI) assumption+
  qed
qed

theorem failed_start_persists_no_record_witness:
  "fst (cmd_start env_dying [''3000'', ''web'', ''--method=cloudflare''] world0) = Inl Tunnel_process_died \<and>
   ends_with ''.json'' ''web.json'' \<and>
   files (snd (cmd_start env_dying [''3000'', ''web'', ''--method=cloudflare''] world0)) ''web.json''
     = files world0 ''web.json'' \<and>
   start_args [''3000'', ''web'', ''--method=cloudflare''] = (''3000'', ''web'', ''cloudflare'') \<and>
   select_method env_dying ''cloudflare'' = Some ''cloudflare'' \<and>
   cmd_start env_dying [''3000'', ''web'', ''--method=cloudflare''] world0
     = start_cloudflare_named env_dying ''3000'' ''web'' world0"
proof -
  have h: "fst (cmd_start env_dying [''3000'', ''web'', ''--method=cloudflare''] world0) = Inl Tunnel_process_died"
    by (simp add: launcher_eval world_eval machine_eval)
  have j: "ends_with ''.json'' ''web.json''"
    by (simp add: ends_with_def)
  have sa: "start_args [''3000'', ''web'', ''--method=cloudflare''] = (''3000'', ''web'', ''cloudflare'')"
    by (simp add: start_args_def)
  have sm: "select_method env_dying ''cloudflare'' = Some ''cloudflare''"
    by (simp add: select_method_def)
  have an: "announce env_dying ''3000'' ''cloudflare'' ''cloudflare'' world0 = world0"
    by (simp add: announce_def machine_eval)
  note t = failed_start_persists_no_record [OF h]
  from t j have c1: "files (snd (cmd_start env_dying [''3000'', ''web'', ''--method=cloudflare''] world0)) ''web.json''
     = files world0 ''web.json''"
    by simp
  from t sa have "\<forall>method.
       ''3000'' \<noteq> '''' \<and> select_method env_dying ''cloudflare'' = Some method \<longrightarrow>
         (method = ''cloudflare'' \<or> method = ''cloudflare_named'' \<longrightarrow>
            cmd_start env_dying [''3000'', ''web'', ''--method=cloudflare''] world0
              = start_cloudflare_named env_dying ''3000'' (default_name ''3000'' ''web'')
                  (announce env_dying ''3000'' ''cloudflare'' method world0))"
    by simp
  with sm have "cmd_start env_dying [''3000'', ''web'', ''--method=cloudflare''] world0
              = start_cloudflare_named env_dying ''3000'' (default_name ''3000'' ''web'')
                  (announce env_dying ''3000'' ''cloudflare'' ''cloudflare'' world0)"
    by simp
  then have c2: "cmd_start env_dying [''3000'', ''web'', ''--method=cloudflare''] world0
     = start_cloudflare_named env_dying ''3000'' ''web'' world0"
    by (simp add: an default_name_def)
  from h j c1 sa sm c2 show ?thesis
    by (intro conjI)
qed

text \<open>
  Claim C6 as stated fails: a routed launch whose process dies within the settle time
  fails after it has written the routing configuration and the log file and issued the
  DNS route command.
\<close>

theorem failed_named_start_rewrites_config:
  "fst (cmd_start env_dying [''3000'', ''web'', ''--method=cloudflare''] world0) = Inl Tunnel_process_died \<and>
   configs world0 ''dev-config.yml'' = None \<and>
   configs (snd (cmd_start env_dying [''3000'', ''web'', ''--method=cloudflare''] world0)) ''dev-config.yml''
     = Some \<lparr>tunnel = ''dev'', credentials_file = ''/home/u/.cloudflared/1f2e.json'',
             ingress = [\<lparr>hostname_of = Some ''web-dev.example.com'', service = ''http://localhost:3000''\<rparr>,
                        catch_all_404]\<rparr> \<and>
   files world0 ''dev.log'' = None \<and>
   files (snd (cmd_start env_dying [''3000'', ''web'', ''--method=cloudflare''] world0)) ''dev.log''
     = Some (proc_log env_dying) \<and>
   calls (snd (cmd_start env_dying [''3000'', ''web'', ''--method=cloudflare''] world0))
     = [Route_dns ''dev'' ''web-dev.example.com'']"
  by (simp add: launcher_eval world_eval machine_eval catch_all_404_def)

lemma ensure_tunnel_effect:
  "ensure_tunnel e tn w = (created, w') \<Longrightarrow>
     created = (tunnel_listed e tn \<or> tunnel_create_ok e tn) \<and>
     calls w' = calls w @ (if tunnel_listed e tn then [] else [Tunnel_create tn]) \<and>
     files w' = files w \<and> configs w' = configs w \<and> procs w' = procs w"
  by (auto simp: ensure_tunnel_def say_def call_def Let_def split: if_splits)

lemma ensure_dns_route_effect:
  "calls (ensure_dns_route e tn h w) = calls w @ [Route_dns tn h] \<and>
   files (ensure_dns_route e tn h w) = files w \<and>
   configs (ensure_dns_route e tn h w) = configs w \<and>
   procs (ensure_dns_route e tn h w) = procs w"
  by (simp add: ensure_dns_route_def say_def call_def Let_def)

subsection \<open>Routed/named launcher\<close>

text \<open>
  Claim C9, as amended.  The DNS route comes before the credentials check: when the domain
  is set, the tunnel exists or is created, its id is found and the credentials file is
  absent, the launcher fails with \<^const>\<open>Credentials_not_found\<close> after it has issued the
  \<^verbatim>\<open>route dns\<close> command for the hostname (its last backend command), and it has written no
  file, no configuration and started no process.
\<close>

theorem named_launcher_routes_dns_before_credentials:
  assumes "CLOUDFLARE_TUNNEL_DOMAIN e \<noteq> ''''"
    and "tunnel_listed e (tunnel_name_of e) \<or> tunnel_create_ok e (tunnel_name_of e)"
    and "tunnel_id_of e (tunnel_name_of e) \<noteq> ''''"
    and "\<not> creds_present e (creds_file_of e)"
  shows "fst (start_cloudflare_named e local_port name w) = Inl Credentials_not_found \<and>
     calls (snd (start_cloudflare_named e local_port name w))
       = calls w @ (if tunnel_listed e (tunnel_name_of e) then [] else [Tunnel_create (tunnel_name_of e)])
           @ [Route_dns (tunnel_name_of e) (derived_hostname e name)] \<and>
     files (snd (start_cloudflare_named e local_port name w)) = files w \<and>
     configs (snd (start_cloudflare_named e local_port name w)) = configs w \<and>
     procs (snd (start_cloudflare_named e local_port name w)) = procs w"
proof -
  define w1 where "w1 = say LOG (''Starting Cloudflare named tunnel for port '' @ local_port @ '' -> ''
      @ derived_hostname e name @ ''...'') w"
  obtain created w2 where et: "ensure_tunnel e (tunnel_name_of e) w1 = (created, w2)"
    by (cases "ensure_tunnel e (tunnel_name_of e) w1")
  from ensure_tunnel_effect [OF et] assms(2)
  have c: "created"
    and w2: "calls w2 = calls w @ (if tunnel_listed e (tunnel_name_of e) then [] else [Tunnel_create (tunnel_name_of e)])"
       "files w2 = files w" "configs w2 = configs w" "procs w2 = procs w"
    by (simp_all add: w1_def say_def)
  have eq: "start_cloudflare_named e local_port name w =
      (Inl Credentials_not_found,
       say ERROR (''Credentials file not found: '' @ creds_file_of e)
         (ensure_dns_route e (tunnel_name_of e) (derived_hostname e name) w2))"
    using assms(1,3,4) et c by (simp add: start_cloudflare_named_def w1_def Let_def)
  show ?thesis
    unfolding eq using w2 by (simp add: say_def ensure_dns_route_effect)
qed

theorem named_launcher_routes_dns_before_credentials_witness:
  "CLOUDFLARE_TUNNEL_DOMAIN env_nocreds \<noteq> '''' \<and>
   tunnel_listed env_nocreds (tunnel_name_of env_nocreds) \<and>
   tunnel_id_of env_nocreds (tunnel_name_of env_nocreds) \<noteq> '''' \<and>
   \<not> creds_present env_nocreds (creds_file_of env_nocreds) \<and>
   fst (start_cloudflare_named env_nocreds ''3000'' ''web'' world0) = Inl Credentials_not_found \<and>
   calls (snd (start_cloudflare_named env_nocreds ''3000'' ''web'' world0))
     = [Route_dns ''dev'' ''web-dev.example.com''] \<and>
   configs (snd (start_cloudflare_named env_nocreds ''3000'' ''web'' world0)) = configs world0"
proof -
  have h1: "CLOUDFLARE_TUNNEL_DOMAIN env_nocreds \<noteq> ''''"
    by (simp add: machine_eval)
  have h2: "tunnel_listed env_nocreds (tunnel_name_of env_nocreds)"
    by (simp add: machine_eval tunnel_name_of_def get_machine_name_def)
  have h3: "tunnel_id_of env_nocreds (tunnel_name_of env_nocreds) \<noteq> ''''"
    by (simp add: machine_eval tunnel_name_of_def get_machine_name_def)
  have h4: "\<not> creds_present env_nocreds (creds_file_of env_nocreds)"
    by (simp add: machine_eval)
  have n: "tunnel_name_of env_nocreds = ''dev''" "derived_hostname env_nocreds ''web'' = ''web-dev.example.com''"
    by (simp_all add: machine_eval tunnel_name_of_def derived_hostname_def get_machine_name_def)
  from named_launcher_routes_dns_before_credentials [OF h1 disjI1 [OF h2] h3 h4, of "''3000''" "''web''" world0]
    h1 h2 h3 h4 n
  show ?thesis by (simp add: world0_def)
qed

text \<open>
  Claim C9 as stated fails: with the credentials file absent, the launcher has attempted the
  DNS route by the time it fails.
\<close>

theorem credentials_missing_after_dns_route:
  "\<not> creds_present env_nocreds ''/home/u/.cloudflared/1f2e.json'' \<and>
   fst (cmd_start env_nocreds [''3000'', ''web'', ''--method=cloudflare''] world0) = Inl Credentials_not_found \<and>
   calls (snd (cmd_start env_nocreds [''3000'', ''web'', ''--method=cloudflare''] world0))
     = [Route_dns ''dev'' ''web-dev.example.com'']"
  by (simp add: launcher_eval world_eval machine_eval)

subsection \<open>The routing configuration over the states the script reaches\<close>














lemma stop_tunnel_configs: "configs (snd (stop_tunnel e name w)) = configs w"
  by (simp add: stop_tunnel_def say_def rm_f_def call_def kill_def Let_def split: option.splits)





lemma named_stages:
  assumes "CLOUDFLARE_TUNNEL_DOMAIN e \<noteq> ''''" and "tunnel_listed e (tunnel_name_of e)"
    and "tunnel_id_of e (tunnel_name_of e) \<noteq> ''''" and "creds_present e (creds_file_of e)"
  shows "start_cloudflare_named e p n w =
     run_tunnel e p n (tunnel_name_of e) (derived_hostname e n) (config_file_of e)
       (restart_existing e (tunnel_name_of e)
          (update_config e (config_file_of e) (tunnel_name_of e) (creds_file_of e) (derived_hostname e n) p
             (ensure_dns_route e (tunnel_name_of e) (derived_hostname e n)
                (say LOG (''Starting Cloudflare named tunnel for port '' @ p @ '' -> ''
                           @ derived_hostname e n @ ''...'') w))))"
  using assms by (simp add: start_cloudflare_named_def ensure_tunnel_def Let_def)

lemmas stage_eval =
  cmd_start_def start_args_def default_name_def select_method_def announce_def
  cmd_stop_def cmd_stop_all_def dispatch_def named_stages update_config_def
  ensure_dns_route_def restart_existing_def run_tunnel_def ingress_accepted_def
  tunnel_name_of_def derived_hostname_def creds_file_of_def config_file_of_def
  get_machine_name_def named_record_def dec.simps digit_char_def STATE_DIR_def
  CLOUDFLARED_CONFIG_DIR_def

lemma first_start:
  "cmd_start env0 [''3000'', ''web'', ''--method=cloudflare''] world0
     = (Inr ''https://web-dev.example.com'', started_world)"
  by (simp add: started_world_def stage_eval world_eval machine_eval catch_all_404_def)



text \<open>
  On a machine without yq a second start of the same name does not succeed: the launcher
  rebuilds the configuration from the here-document of lines 292-299, which has the rule of
  the hostname and no catch-all rule after it, ends the running process of the tunnel, and
  the new process does not survive the settle time.  The launcher fails with
  \<^const>\<open>Tunnel_process_died\<close>; no tunnel process is left, the record of the first start is
  still in the state directory and the configuration is left without its catch-all rule.
\<close>

theorem second_start_without_yq_fails:
  "fst (cmd_start env0 [''3000'', ''web'', ''--method=cloudflare''] world0) = Inr ''https://web-dev.example.com'' \<and>
   configs (snd (cmd_start env0 [''3000'', ''web'', ''--method=cloudflare''] world0)) ''dev-config.yml''
     = Some \<lparr>tunnel = ''dev'', credentials_file = ''/home/u/.cloudflared/1f2e.json'',
             ingress = [\<lparr>hostname_of = Some ''web-dev.example.com'', service = ''http://localhost:3000''\<rparr>,
                        catch_all_404]\<rparr> \<and>
   fst (cmd_start env_again [''3000'', ''web'', ''--method=cloudflare'']
          (snd (cmd_start env0 [''3000'', ''web'', ''--method=cloudflare''] world0)))
     = Inl Tunnel_process_died \<and>
   configs (snd (cmd_start env_again [''3000'', ''web'', ''--method=cloudflare'']
          (snd (cmd_start env0 [''3000'', ''web'', ''--method=cloudflare''] world0)))) ''dev-config.yml''
     = Some \<lparr>tunnel = ''dev'', credentials_file = ''/home/u/.cloudflared/1f2e.json'',
             ingress = [\<lparr>hostname_of = Some ''web-dev.example.com'', service = ''http://localhost:3000''\<rparr>]\<rparr> \<and>
   procs (snd (cmd_start env_again [''3000'', ''web'', ''--method=cloudflare'']
          (snd (cmd_start env0 [''3000'', ''web'', ''--method=cloudflare''] world0)))) 4242 = None \<and>
   procs (snd (cmd_start env_again [''3000'', ''web'', ''--method=cloudflare'']
          (snd (cmd_start env0 [''3000'', ''web'', ''--method=cloudflare''] world0)))) 4243 = None \<and>
   files (snd (cmd_start env_again [''3000'', ''web'', ''--method=cloudflare'']
          (snd (cmd_start env0 [''3000'', ''web'', ''--method=cloudflare''] world0)))) ''web.json''
     = Some (named_record ''web'' ''3000'' ''https://web-dev.example.com'' ''web-dev.example.com'' ''dev'' 4242)"
  unfolding first_start fst_conv snd_conv
  by (simp add: started_world_def stage_eval world_eval machine_eval catch_all_404_def is_digit_def)

subsection \<open>What holds of the claims that fail: the Stopper\<close>

lemma jq_r_parsed:
  "has_jq e \<Longrightarrow> json_object text = Read kvs \<Longrightarrow> \<exists>out. jq_r e field text = Some out"
  by (simp add: jq_r_def)

lemma stop_tunnel_parsed:
  assumes "has_jq e" and "files w (name @ ''.json'') = Some text" and "json_object text = Read kvs"
  shows "fst (stop_tunnel e name w) = Inr () \<and>
         files (snd (stop_tunnel e name w)) (name @ ''.json'') = None"
proof -
  obtain m where m: "jq_r e ''method'' text = Some m"
    using jq_r_parsed [OF assms(1,3)] by auto
  obtain fp where fp: "jq_r e ''funnel_port'' text = Some fp"
    using jq_r_parsed [OF assms(1,3)] by auto
  obtain pid where pid: "jq_r e ''pid'' text = Some pid"
    using jq_r_parsed [OF assms(1,3)] by auto
  obtain tn where tn: "jq_r e ''tunnel_name'' text = Some tn"
    using jq_r_parsed [OF assms(1,3)] by auto
  obtain h where h: "jq_r e ''hostname'' text = Some h"
    using jq_r_parsed [OF assms(1,3)] by auto
  show ?thesis
    using assms(2) m fp pid tn h
    by (simp add: stop_tunnel_def say_def rm_f_def call_def kill_keeps_files Let_def)
qed

text \<open>
  On a machine with jq, a record that the reader reads is always deleted by
  \<^const>\<open>stop_tunnel\<close>, whatever its method and whatever the teardown answers, and the status
  is 0.
\<close>

theorem stop_tunnel_deletes_parsed_record:
  "has_jq e \<Longrightarrow> files w (name @ ''.json'') = Some text \<Longrightarrow> json_object text = Read kvs \<Longrightarrow>
   fst (stop_tunnel e name w) = Inr () \<and>
   files (snd (stop_tunnel e name w)) (name @ ''.json'') = None"
  by (rule stop_tunnel_parsed)

text \<open>\<^const>\<open>stop_tunnel\<close> never changes a routing configuration: no ingress rule is ever removed,
  this name's or another's.\<close>

theorem stop_tunnel_keeps_configs:
  "configs (snd (stop_tunnel e name w)) = configs w"
  by (rule stop_tunnel_configs)

text \<open>For a routed record of which jq reads the method, the tunnel name and the hostname,
  \<^const>\<open>stop_tunnel\<close> issues no backend command, signals no process and changes no
  configuration; it removes the record file and nothing else.\<close>

theorem stop_named_record_frame:
  assumes "files w (name @ ''.json'') = Some text"
    and "jq_r e ''method'' text = Some out"
    and "cmd_subst out = ''cloudflare_named''"
    and "jq_r e ''tunnel_name'' text = Some out1"
    and "jq_r e ''hostname'' text = Some out2"
  shows "fst (stop_tunnel e name w) = Inr () \<and>
         configs (snd (stop_tunnel e name w)) = configs w \<and>
         procs (snd (stop_tunnel e name w)) = procs w \<and>
         calls (snd (stop_tunnel e name w)) = calls w \<and>
         files (snd (stop_tunnel e name w)) = (files w)(name @ ''.json'' := None)"
  using assms by (simp add: stop_tunnel_def say_def rm_f_def Let_def)

lemma glob_star_json_record:
  assumes "name \<noteq> []" and "hd name \<noteq> CHR ''.''" and "CHR ''/'' \<notin> set name"
  shows "glob_star_json (name @ ''.json'')"
proof -
  obtain c cs where n: "name = c # cs"
    using assms(1) by (cases name) auto
  have "ends_with ''.json'' (name @ ''.json'')"
    by (auto simp: ends_with_iff)
  with assms n show ?thesis
    by (simp add: glob_star_json_def)
qed

text \<open>
  \<^const>\<open>stop_all_tunnels\<close> always returns status 0, whatever the funnel reset and \<^verbatim>\<open>pkill\<close> answer,
  issues both teardown commands and removes exactly the files \<^verbatim>\<open>*.json\<close> expands to: among
  them the record of every name that is not empty, does not start with a dot and has no
  slash.
\<close>

theorem stop_all_clears_matching_records:
  "fst (stop_all_tunnels e w) = Inr () \<and>
   calls (snd (stop_all_tunnels e w)) = calls w @ [Funnel_reset, Pkill ''cloudflared tunnel''] \<and>
   (\<forall>f. glob_star_json f \<longrightarrow> files (snd (stop_all_tunnels e w)) f = None) \<and>
   (\<forall>f. \<not> glob_star_json f \<longrightarrow> files (snd (stop_all_tunnels e w)) f = files w f) \<and>
   (\<forall>name. name \<noteq> [] \<and> hd name \<noteq> CHR ''.'' \<and> CHR ''/'' \<notin> set name \<longrightarrow>
      files (snd (stop_all_tunnels e w)) (name @ ''.json'') = None)"
  using glob_star_json_record
  by (simp add: stop_all_tunnels_def say_def call_def pkill_def Let_def)

subsection \<open>The same, on the concrete machine\<close>

theorem stop_tunnel_deletes_parsed_record_witness:
  "has_jq env0 \<and>
   fst (stop_tunnel env0 ''site'' ts_world) = Inr () \<and>
   files (snd (stop_tunnel env0 ''site'' ts_world)) (''site'' @ ''.json'') = None"
proof -
  have h0: "has_jq env0"
    by (simp add: env0_def)
  have h1: "files ts_world (''site'' @ ''.json'')
      = Some (tailscale_record ''site'' ''8080'' ''443'' ''https://box.tail1234.ts.net'' ''box.tail1234.ts.net'')"
    by (simp add: ts_world_def)
  have h2: "json_object (tailscale_record ''site'' ''8080'' ''443'' ''https://box.tail1234.ts.net'' ''box.tail1234.ts.net'')
      = Read [(''method'', ''tailscale''), (''name'', ''site''), (''local_port'', ''8080''),
              (''funnel_port'', ''443''), (''url'', ''https://box.tail1234.ts.net''),
              (''ts_host'', ''box.tail1234.ts.net'')]"
    by (simp add: jq_eval tailscale_record_def)
  from stop_tunnel_deletes_parsed_record [OF h0 h1 h2] h0 show ?thesis
    by simp
qed

lemma named_world_eq: "named_world = started_world"
  unfolding named_world_def
  by (simp add: started_world_def stage_eval world_eval machine_eval catch_all_404_def)

lemma jq_named_record:
  "jq_r env_yq ''method'' (named_record ''web'' ''3000'' ''https://web-dev.example.com'' ''web-dev.example.com'' ''dev'' 4242)
     = Some (''cloudflare_named'' @ [CHR 0x0A])"
  "jq_r env_yq ''tunnel_name'' (named_record ''web'' ''3000'' ''https://web-dev.example.com'' ''web-dev.example.com'' ''dev'' 4242)
     = Some (''dev'' @ [CHR 0x0A])"
  "jq_r env_yq ''hostname'' (named_record ''web'' ''3000'' ''https://web-dev.example.com'' ''web-dev.example.com'' ''dev'' 4242)
     = Some (''web-dev.example.com'' @ [CHR 0x0A])"
  by (simp_all add: jq_eval named_record_def dec.simps digit_char_def machine_eval)

theorem stop_named_record_frame_witness:
  "fst (stop_tunnel env_yq ''web'' named_world) = Inr () \<and>
   procs (snd (stop_tunnel env_yq ''web'' named_world)) 4242 = Some (Named_run ''dev-config.yml'' ''dev'') \<and>
   calls (snd (stop_tunnel env_yq ''web'' named_world)) = [Route_dns ''dev'' ''web-dev.example.com''] \<and>
   configs (snd (stop_tunnel env_yq ''web'' named_world)) = configs named_world \<and>
   files (snd (stop_tunnel env_yq ''web'' named_world)) ''web.json'' = None"
proof -
  have h1: "files named_world (''web'' @ ''.json'')
     = Some (named_record ''web'' ''3000'' ''https://web-dev.example.com'' ''web-dev.example.com'' ''dev'' 4242)"
    by (simp add: named_world_eq started_world_def)
  have h3: "cmd_subst (''cloudflare_named'' @ [CHR 0x0A]) = ''cloudflare_named''"
    by (simp add: cmd_subst_def)
  have p: "procs named_world 4242 = Some (Named_run ''dev-config.yml'' ''dev'')"
    and c: "calls named_world = [Route_dns ''dev'' ''web-dev.example.com'']"
    by (simp_all add: named_world_eq started_world_def)
  from stop_named_record_frame [OF h1 jq_named_record(1) h3 jq_named_record(2) jq_named_record(3)]
  show ?thesis
    by (simp add: p c)
qed

theorem stop_all_clears_matching_records_witness:
  "glob_star_json ''demo.json'' \<and>
   files (snd (start_cloudflare_quick env0 ''3000'' ''demo'' world0)) ''demo.json'' \<noteq> None \<and>
   fst (stop_all_tunnels env0 (snd (start_cloudflare_quick env0 ''3000'' ''demo'' world0))) = Inr () \<and>
   files (snd (stop_all_tunnels env0 (snd (start_cloudflare_quick env0 ''3000'' ''demo'' world0)))) ''demo.json''
     = None"
proof -
  have g: "glob_star_json ''demo.json''"
    by (simp add: glob_star_json_def ends_with_def)
  have s: "files (snd (start_cloudflare_quick env0 ''3000'' ''demo'' world0)) ''demo.json'' \<noteq> None"
    by (simp add: launcher_eval world_eval machine_eval)
  from stop_all_clears_matching_records [of env0 "snd (start_cloudflare_quick env0 ''3000'' ''demo'' world0)"] g s
  show ?thesis by blast
qed

text \<open>
  With no method given, \<^verbatim>\<open>tunnel.sh start 3000\<close> on a machine whose name is \<^verbatim>\<open>a"b\<close> ends at
  \<^verbatim>\<open>detection=$(cmd_detect)\<close> under \<^verbatim>\<open>set -e\<close>: the report is not JSON, jq refuses it, and the
  script exits before any launcher runs, with nothing changed and nothing printed by
  \<^verbatim>\<open>cmd_start\<close>.
\<close>

theorem start_auto_detect_quoted_machine_name_exits:
  \<open>get_machine_name env_quoted = ''a"b'' \<and>
   cmd_detect env_quoted = None \<and>
   cmd_start env_quoted [''3000''] world0 = (Inl (Errexit ''cmd_detect''), world0)\<close>
  by (simp add: cmd_start_def start_args_def select_method_def cmd_detect_def detect_report_def
        get_machine_name_def get_cloudflare_domain_def check_tailscale_def check_cloudflare_def
        recommended_def json_plain_def env_quoted_def env0_def jq_eval)

subsection \<open>Records of plain fields are read back\<close>

lemma json_plain_append [simp]: "json_plain (a @ b) \<longleftrightarrow> json_plain a \<and> json_plain b"
  by (simp add: json_plain_def)

lemma json_string_plain:
  "json_plain s \<Longrightarrow> json_string (s @ CHR 0x22 # r) = Read (s, r)"
proof (induction s)
  case Nil
  show ?case by (cases r) simp_all
next
  case (Cons c s)
  obtain d cs where dc: "s @ CHR 0x22 # r = d # cs"
    by (cases "s @ CHR 0x22 # r") simp_all
  from Cons.prems have p: "plain_char c" and s: "json_plain s"
    by (simp_all add: json_plain_def)
  from p have c: "c \<noteq> CHR 0x22" "c \<noteq> CHR 0x5C"
    by (simp_all add: plain_char_def)
  have "json_string (c # d # cs) = read_cons c (json_string (d # cs))"
    using c p by simp
  also have "\<dots> = Read (c # s, r)"
    using Cons.IH [OF s] dc by (simp add: read_cons_def)
  finally show ?case using dc by simp
qed

lemma is_digit_not_special:
  "is_digit c \<Longrightarrow> c \<noteq> CHR 0x22 \<and> \<not> json_ws c \<and> c \<noteq> CHR ''}''"
  by (auto simp: is_digit_def json_ws_def)

lemma skip_ws_nonws: "\<not> json_ws c \<Longrightarrow> skip_ws (c # cs) = c # cs"
  by (simp add: skip_ws_def)

lemma ws_facts:
  "\<not> json_ws (CHR 0x22)" "\<not> json_ws (CHR '':'')" "\<not> json_ws (CHR '','')" "\<not> json_ws (CHR ''}'')"
  "\<not> is_digit (CHR '','')" "\<not> is_digit (CHR ''}'')"
  by (simp_all add: json_ws_def is_digit_def)

lemma json_atom_integer:
  assumes "json_integer s" and "\<not> is_digit c"
  shows "json_atom (s @ c # r) = Some (s, c # r)"
proof -
  from assms(1) have ne: "s \<noteq> []" and all: "list_all is_digit s"
    and lead: "s = ''0'' \<or> hd s \<noteq> CHR ''0''" and len: "length s \<le> 15"
    by (simp_all add: json_integer_def)
  have t: "takeWhile is_digit (s @ c # r) = s"
    using all assms(2) by (simp add: takeWhile_append2 list_all_iff)
  have dr: "dropWhile is_digit (s @ c # r) = c # r"
    using all assms(2) by (simp add: dropWhile_append2 list_all_iff)
  show ?thesis
    unfolding json_atom_def t dr using ne lead len by (simp add: Let_def)
qed

lemma json_value_string:
  assumes "json_plain v" and "sep = CHR '','' \<or> sep = CHR ''}''"
  shows "json_value (CHR 0x22 # v @ CHR 0x22 # sep # rest) = Read (v, sep # rest)"
proof -
  from assms(2) have "\<not> json_ws sep"
    by (auto simp: json_ws_def)
  then have "skip_ws (sep # rest) = sep # rest"
    by (rule skip_ws_nonws)
  with assms(2) show ?thesis
    by (simp add: json_value_def json_string_plain [OF assms(1)])
qed

lemma json_value_integer:
  assumes "json_integer v" and "sep = CHR '','' \<or> sep = CHR ''}''"
  shows "json_value (v @ sep # rest) = Read (v, sep # rest)"
proof -
  from assms(1) obtain d ds where v: "v = d # ds" and d: "is_digit d"
    by (cases v) (auto simp: json_integer_def)
  from assms(2) have ns: "\<not> json_ws sep" and nd: "\<not> is_digit sep"
    by (auto simp: json_ws_def is_digit_def)
  have sk: "skip_ws (sep # rest) = sep # rest"
    using ns by (rule skip_ws_nonws)
  have at: "json_atom (v @ sep # rest) = Some (v, sep # rest)"
    using assms(1) nd by (rule json_atom_integer)
  have "json_value (d # (ds @ sep # rest)) = Read (v, sep # rest)"
    unfolding json_value_def using is_digit_not_special [OF d] at sk assms(2) v by simp
  with v show ?thesis by simp
qed

lemma skip_ws_integer:
  assumes "json_integer s"
  shows "skip_ws (s @ r) = s @ r"
proof -
  from assms obtain d ds where s: "s = d # ds" and d: "is_digit d"
    by (cases s) (auto simp: json_integer_def)
  with is_digit_not_special [OF d] show ?thesis by (simp add: skip_ws_def)
qed

lemma member_string_comma:
  assumes "json_plain k" and "json_plain v"
  shows "json_members (CHR 0x22 # k @ CHR 0x22 # CHR '':'' # CHR 0x22 # v @ CHR 0x22 # CHR '','' # rest) acc
         = json_members rest (acc @ [(k, v)])"
  by (subst json_members.simps)
     (simp add: skip_ws_nonws ws_facts json_string_plain [OF assms(1)] json_value_string [OF assms(2)])

lemma member_string_last:
  assumes "json_plain k" and "json_plain v" and "skip_ws rest = []"
  shows "json_members (CHR 0x22 # k @ CHR 0x22 # CHR '':'' # CHR 0x22 # v @ CHR 0x22 # CHR ''}'' # rest) acc
         = Read (acc @ [(k, v)])"
  by (subst json_members.simps)
     (simp add: skip_ws_nonws ws_facts json_string_plain [OF assms(1)] json_value_string [OF assms(2)]
        assms(3))

lemma member_integer_comma:
  assumes "json_plain k" and "json_integer v"
  shows "json_members (CHR 0x22 # k @ CHR 0x22 # CHR '':'' # v @ CHR '','' # rest) acc
         = json_members rest (acc @ [(k, v)])"
  by (subst json_members.simps)
     (simp add: skip_ws_nonws ws_facts json_string_plain [OF assms(1)] skip_ws_integer [OF assms(2)]
        json_value_integer [OF assms(2)])

lemma member_integer_last:
  assumes "json_plain k" and "json_integer v" and "skip_ws rest = []"
  shows "json_members (CHR 0x22 # k @ CHR 0x22 # CHR '':'' # v @ CHR ''}'' # rest) acc
         = Read (acc @ [(k, v)])"
  by (subst json_members.simps)
     (simp add: skip_ws_nonws ws_facts json_string_plain [OF assms(1)] skip_ws_integer [OF assms(2)]
        json_value_integer [OF assms(2)] assms(3))

lemma json_object_members:
  "json_object (CHR ''{'' # CHR 0x22 # cs) = json_members (CHR 0x22 # cs) []"
  by (simp add: json_object_def skip_ws_def json_ws_def)

lemma skip_ws_newline: "skip_ws [CHR 0x0A] = []"
  by (simp add: skip_ws_def json_ws_def)

lemma plain_keys:
  "json_plain ''method''" "json_plain ''name''" "json_plain ''local_port''" "json_plain ''funnel_port''"
  "json_plain ''url''" "json_plain ''ts_host''" "json_plain ''pid''" "json_plain ''hostname''"
  "json_plain ''tunnel_name''" "json_plain ''tailscale''" "json_plain ''cloudflare_quick''"
  "json_plain ''cloudflare_named''"
  by (simp_all add: json_plain_def plain_char_def)

lemma quick_record_parses:
  assumes "json_plain name" and "json_integer local_port" and "json_plain url" and "json_integer (dec pid)"
  shows "json_object (quick_record name local_port url pid)
     = Read [(''method'', ''cloudflare_quick''), (''name'', name), (''local_port'', local_port),
             (''url'', url), (''pid'', dec pid)]"
proof -
  let ?r4 = "CHR 0x22 # ''pid'' @ CHR 0x22 # CHR '':'' # dec pid @ CHR ''}'' # [CHR 0x0A]"
  let ?r3 = "CHR 0x22 # ''url'' @ CHR 0x22 # CHR '':'' # CHR 0x22 # url @ CHR 0x22 # CHR '','' # ?r4"
  let ?r2 = "CHR 0x22 # ''local_port'' @ CHR 0x22 # CHR '':'' # local_port @ CHR '','' # ?r3"
  let ?r1 = "CHR 0x22 # ''name'' @ CHR 0x22 # CHR '':'' # CHR 0x22 # name @ CHR 0x22 # CHR '','' # ?r2"
  let ?r0 = "''method'' @ CHR 0x22 # CHR '':'' # CHR 0x22 # ''cloudflare_quick'' @ CHR 0x22 # CHR '','' # ?r1"
  have "quick_record name local_port url pid = CHR ''{'' # CHR 0x22 # ?r0"
    by (simp add: quick_record_def)
  then have "json_object (quick_record name local_port url pid) = json_members (CHR 0x22 # ?r0) []"
    by (simp only: json_object_members)
  also have "\<dots> = json_members ?r1 ([] @ [(''method'', ''cloudflare_quick'')])"
    by (rule member_string_comma [OF plain_keys(1) plain_keys(11)])
  also have "\<dots> = json_members ?r2 (([] @ [(''method'', ''cloudflare_quick'')]) @ [(''name'', name)])"
    by (rule member_string_comma [OF plain_keys(2) assms(1)])
  also have "\<dots> = json_members ?r3 ((([] @ [(''method'', ''cloudflare_quick'')]) @ [(''name'', name)])
        @ [(''local_port'', local_port)])"
    by (rule member_integer_comma [OF plain_keys(3) assms(2)])
  also have "\<dots> = json_members ?r4 (((([] @ [(''method'', ''cloudflare_quick'')]) @ [(''name'', name)])
        @ [(''local_port'', local_port)]) @ [(''url'', url)])"
    by (rule member_string_comma [OF plain_keys(5) assms(3)])
  also have "\<dots> = Read ((((([] @ [(''method'', ''cloudflare_quick'')]) @ [(''name'', name)])
        @ [(''local_port'', local_port)]) @ [(''url'', url)]) @ [(''pid'', dec pid)])"
    by (rule member_integer_last [OF plain_keys(7) assms(4) skip_ws_newline])
  finally show ?thesis by simp
qed

lemma tailscale_record_parses:
  assumes "json_plain name" and "json_integer local_port" and "json_integer funnel_port"
    and "json_plain url" and "json_plain ts_host"
  shows "json_object (tailscale_record name local_port funnel_port url ts_host)
     = Read [(''method'', ''tailscale''), (''name'', name), (''local_port'', local_port),
             (''funnel_port'', funnel_port), (''url'', url), (''ts_host'', ts_host)]"
proof -
  let ?r5 = "CHR 0x22 # ''ts_host'' @ CHR 0x22 # CHR '':'' # CHR 0x22 # ts_host @ CHR 0x22 # CHR ''}'' # [CHR 0x0A]"
  let ?r4 = "CHR 0x22 # ''url'' @ CHR 0x22 # CHR '':'' # CHR 0x22 # url @ CHR 0x22 # CHR '','' # ?r5"
  let ?r3 = "CHR 0x22 # ''funnel_port'' @ CHR 0x22 # CHR '':'' # funnel_port @ CHR '','' # ?r4"
  let ?r2 = "CHR 0x22 # ''local_port'' @ CHR 0x22 # CHR '':'' # local_port @ CHR '','' # ?r3"
  let ?r1 = "CHR 0x22 # ''name'' @ CHR 0x22 # CHR '':'' # CHR 0x22 # name @ CHR 0x22 # CHR '','' # ?r2"
  let ?r0 = "''method'' @ CHR 0x22 # CHR '':'' # CHR 0x22 # ''tailscale'' @ CHR 0x22 # CHR '','' # ?r1"
  have "tailscale_record name local_port funnel_port url ts_host = CHR ''{'' # CHR 0x22 # ?r0"
    by (simp add: tailscale_record_def)
  then have "json_object (tailscale_record name local_port funnel_port url ts_host)
      = json_members (CHR 0x22 # ?r0) []"
    by (simp only: json_object_members)
  also have "\<dots> = json_members ?r1 ([] @ [(''method'', ''tailscale'')])"
    by (rule member_string_comma [OF plain_keys(1) plain_keys(10)])
  also have "\<dots> = json_members ?r2 (([] @ [(''method'', ''tailscale'')]) @ [(''name'', name)])"
    by (rule member_string_comma [OF plain_keys(2) assms(1)])
  also have "\<dots> = json_members ?r3 ((([] @ [(''method'', ''tailscale'')]) @ [(''name'', name)])
        @ [(''local_port'', local_port)])"
    by (rule member_integer_comma [OF plain_keys(3) assms(2)])
  also have "\<dots> = json_members ?r4 (((([] @ [(''method'', ''tailscale'')]) @ [(''name'', name)])
        @ [(''local_port'', local_port)]) @ [(''funnel_port'', funnel_port)])"
    by (rule member_integer_comma [OF plain_keys(4) assms(3)])
  also have "\<dots> = json_members ?r5 ((((([] @ [(''method'', ''tailscale'')]) @ [(''name'', name)])
        @ [(''local_port'', local_port)]) @ [(''funnel_port'', funnel_port)])
        @ [(''url'', url)])"
    by (rule member_string_comma [OF plain_keys(5) assms(4)])
  also have "\<dots> = Read (((((([] @ [(''method'', ''tailscale'')]) @ [(''name'', name)])
        @ [(''local_port'', local_port)]) @ [(''funnel_port'', funnel_port)])
        @ [(''url'', url)]) @ [(''ts_host'', ts_host)])"
    by (rule member_string_last [OF plain_keys(6) assms(5) skip_ws_newline])
  finally show ?thesis by simp
qed

lemma named_record_parses:
  assumes "json_plain name" and "json_integer local_port" and "json_plain url"
    and "json_plain hostname" and "json_plain tunnel_name" and "json_integer (dec pid)"
  shows "json_object (named_record name local_port url hostname tunnel_name pid)
     = Read [(''method'', ''cloudflare_named''), (''name'', name), (''local_port'', local_port),
             (''url'', url), (''hostname'', hostname), (''tunnel_name'', tunnel_name),
             (''pid'', dec pid)]"
proof -
  let ?r6 = "CHR 0x22 # ''pid'' @ CHR 0x22 # CHR '':'' # dec pid @ CHR ''}'' # [CHR 0x0A]"
  let ?r5 = "CHR 0x22 # ''tunnel_name'' @ CHR 0x22 # CHR '':'' # CHR 0x22 # tunnel_name @ CHR 0x22 # CHR '','' # ?r6"
  let ?r4 = "CHR 0x22 # ''hostname'' @ CHR 0x22 # CHR '':'' # CHR 0x22 # hostname @ CHR 0x22 # CHR '','' # ?r5"
  let ?r3 = "CHR 0x22 # ''url'' @ CHR 0x22 # CHR '':'' # CHR 0x22 # url @ CHR 0x22 # CHR '','' # ?r4"
  let ?r2 = "CHR 0x22 # ''local_port'' @ CHR 0x22 # CHR '':'' # local_port @ CHR '','' # ?r3"
  let ?r1 = "CHR 0x22 # ''name'' @ CHR 0x22 # CHR '':'' # CHR 0x22 # name @ CHR 0x22 # CHR '','' # ?r2"
  let ?r0 = "''method'' @ CHR 0x22 # CHR '':'' # CHR 0x22 # ''cloudflare_named'' @ CHR 0x22 # CHR '','' # ?r1"
  have "named_record name local_port url hostname tunnel_name pid = CHR ''{'' # CHR 0x22 # ?r0"
    by (simp add: named_record_def)
  then have "json_object (named_record name local_port url hostname tunnel_name pid)
      = json_members (CHR 0x22 # ?r0) []"
    by (simp only: json_object_members)
  also have "\<dots> = json_members ?r1 ([] @ [(''method'', ''cloudflare_named'')])"
    by (rule member_string_comma [OF plain_keys(1) plain_keys(12)])
  also have "\<dots> = json_members ?r2 (([] @ [(''method'', ''cloudflare_named'')]) @ [(''name'', name)])"
    by (rule member_string_comma [OF plain_keys(2) assms(1)])
  also have "\<dots> = json_members ?r3 ((([] @ [(''method'', ''cloudflare_named'')]) @ [(''name'', name)])
        @ [(''local_port'', local_port)])"
    by (rule member_integer_comma [OF plain_keys(3) assms(2)])
  also have "\<dots> = json_members ?r4 (((([] @ [(''method'', ''cloudflare_named'')]) @ [(''name'', name)])
        @ [(''local_port'', local_port)]) @ [(''url'', url)])"
    by (rule member_string_comma [OF plain_keys(5) assms(3)])
  also have "\<dots> = json_members ?r5 ((((([] @ [(''method'', ''cloudflare_named'')]) @ [(''name'', name)])
        @ [(''local_port'', local_port)]) @ [(''url'', url)]) @ [(''hostname'', hostname)])"
    by (rule member_string_comma [OF plain_keys(8) assms(4)])
  also have "\<dots> = json_members ?r6 (((((([] @ [(''method'', ''cloudflare_named'')]) @ [(''name'', name)])
        @ [(''local_port'', local_port)]) @ [(''url'', url)]) @ [(''hostname'', hostname)])
        @ [(''tunnel_name'', tunnel_name)])"
    by (rule member_string_comma [OF plain_keys(9) assms(5)])
  also have "\<dots> = Read ((((((([] @ [(''method'', ''cloudflare_named'')]) @ [(''name'', name)])
        @ [(''local_port'', local_port)]) @ [(''url'', url)]) @ [(''hostname'', hostname)])
        @ [(''tunnel_name'', tunnel_name)]) @ [(''pid'', dec pid)])"
    by (rule member_integer_last [OF plain_keys(7) assms(6) skip_ws_newline])
  finally show ?thesis by simp
qed

lemma length_dec: "0 < k \<Longrightarrow> n < 10 ^ k \<Longrightarrow> length (dec n) \<le> k"
proof (induction k arbitrary: n)
  case 0
  then show ?case by simp
next
  case (Suc k)
  show ?case
  proof (cases "n < 10")
    case True
    then show ?thesis by (subst dec.simps) simp
  next
    case False
    with Suc.prems have k: "0 < k"
      by (cases k) auto
    from Suc.prems have "n div 10 < 10 ^ k"
      by (simp add: less_mult_imp_div_less mult.commute)
    from Suc.IH [OF k this] False show ?thesis
      by (subst dec.simps) simp
  qed
qed

lemma digit_char_nonzero: "0 < d \<Longrightarrow> d < 10 \<Longrightarrow> digit_char d \<noteq> CHR ''0''"
proof -
  assume "0 < d" "d < 10"
  then have "d = 1 \<or> d = 2 \<or> d = 3 \<or> d = 4 \<or> d = 5 \<or> d = 6 \<or> d = 7 \<or> d = 8 \<or> d = 9"
    by arith
  then show ?thesis
    by (auto simp: digit_char_def)
qed

lemma dec_no_leading_zero: "0 < n \<Longrightarrow> hd (dec n) \<noteq> CHR ''0''"
proof (induction n rule: dec.induct)
  case (1 n)
  show ?case
  proof (cases "n < 10")
    case True
    with "1.prems" show ?thesis
      by (subst dec.simps) (simp add: digit_char_nonzero)
  next
    case False
    then have "0 < n div 10" by simp
    with False "1.IH" have "hd (dec (n div 10)) \<noteq> CHR ''0''" by simp
    with False show ?thesis
      by (subst dec.simps) (simp add: dec_nonempty)
  qed
qed

lemma json_integer_dec: "n < 10 ^ 15 \<Longrightarrow> json_integer (dec n)"
proof -
  assume "n < 10 ^ 15"
  then have len: "length (dec n) \<le> 15" by (intro length_dec) simp_all
  have "dec n = ''0'' \<or> hd (dec n) \<noteq> CHR ''0''"
  proof (cases "n = 0")
    case True
    then show ?thesis by (simp add: dec.simps digit_char_def)
  next
    case False
    then show ?thesis by (simp add: dec_no_leading_zero)
  qed
  with len show ?thesis
    by (simp add: json_integer_def dec_nonempty dec_all_digits)
qed

lemma json_integer_443: "json_integer ''443''"
  by (simp add: json_integer_def is_digit_def)

lemma json_plain_https: "json_plain x \<Longrightarrow> json_plain (''https://'' @ x)"
  by (simp add: json_plain_def plain_char_def)

lemma tailscale_success_record:
  assumes "fst (start_tailscale_funnel e p n '''' w) = Inr url"
    and "json_plain n" and "json_integer p" and "json_plain (ts_self_dnsname e)"
  shows "\<exists>text kvs. files (snd (start_tailscale_funnel e p n '''' w)) (n @ ''.json'') = Some text
           \<and> json_object text = Read kvs"
proof -
  have "json_object (tailscale_record n p ''443'' (''https://'' @ ts_self_dnsname e) (ts_self_dnsname e))
      = Read [(''method'', ''tailscale''), (''name'', n), (''local_port'', p),
             (''funnel_port'', ''443''), (''url'', ''https://'' @ ts_self_dnsname e),
             (''ts_host'', ts_self_dnsname e)]"
    using assms(2,3) json_integer_443 json_plain_https [OF assms(4)] assms(4)
    by (rule tailscale_record_parses)
  moreover have "files (snd (start_tailscale_funnel e p n '''' w)) (n @ ''.json'')
      = Some (tailscale_record n p ''443'' (''https://'' @ ts_self_dnsname e) (ts_self_dnsname e))"
    using assms(1)
    by (simp add: start_tailscale_funnel_def say_def call_def write_file_def Let_def split: if_splits)
  ultimately show ?thesis by blast
qed

lemma wait_for_url_result:
  "fst (wait_for_url e log_file waited w) = '''' \<or>
   (\<exists>i. fst (wait_for_url e log_file waited w) = grep_url e i)"
proof (induction e log_file waited w rule: wait_for_url.induct)
  case (1 e log_file waited w)
  show ?case
  proof (cases "waited < max_wait")
    case False
    then show ?thesis by (subst wait_for_url.simps) simp
  next
    case lt: True
    show ?thesis
    proof (cases "(if files w log_file \<noteq> None then grep_url e waited else '''') = ''''")
      case True
      with lt "1.IH" [of "''''"] show ?thesis
        by (subst wait_for_url.simps, subst (2) wait_for_url.simps) (simp add: Let_def)
    next
      case False
      then have "fst (wait_for_url e log_file waited w) = grep_url e waited"
        using lt by (subst wait_for_url.simps) (auto simp: Let_def split: if_splits)
      then show ?thesis by blast
    qed
  qed
qed

lemma quick_success_record:
  assumes "fst (start_cloudflare_quick e p n w) = Inr url"
    and "json_plain n" and "json_integer p" and "\<forall>i. json_plain (grep_url e i)"
    and "next_pid w < 10 ^ 15"
  shows "\<exists>text kvs. files (snd (start_cloudflare_quick e p n w)) (n @ ''.json'') = Some text
           \<and> json_object text = Read kvs"
proof -
  define w2 where "w2 = snd (spawn e (Quick_tunnel (''http://localhost:'' @ p)) (n @ ''.log'')
      (say LOG (''Starting Cloudflare quick tunnel for port '' @ p @ ''...'') w))"
  obtain u w3 where r: "wait_for_url e (n @ ''.log'') 0 w2 = (u, w3)"
    by (cases "wait_for_url e (n @ ''.log'') 0 w2")
  from assms(1) r have u: "u \<noteq> ''''" and url: "url = u"
    by (auto simp: start_cloudflare_quick_def w2_def spawn_def say_def Let_def split: if_splits)
  from wait_for_url_result [of e "n @ ''.log''" 0 w2] r u obtain i where "u = grep_url e i"
    by auto
  with assms(4) have pu: "json_plain u" by simp
  have "json_object (quick_record n p u (next_pid w))
      = Read [(''method'', ''cloudflare_quick''), (''name'', n), (''local_port'', p),
             (''url'', u), (''pid'', dec (next_pid w))]"
    using assms(2,3) pu json_integer_dec [OF assms(5)] by (rule quick_record_parses)
  moreover have "files (snd (start_cloudflare_quick e p n w)) (n @ ''.json'')
      = Some (quick_record n p u (next_pid w))"
    using r u
    by (simp add: start_cloudflare_quick_def w2_def spawn_def say_def write_file_def Let_def)
  ultimately show ?thesis by blast
qed

lemma kill_keeps_next_pid: "next_pid (kill t w) = next_pid w"
  by (simp add: kill_def call_def Let_def split: option.splits)

lemma stages_keep_next_pid:
  "next_pid (snd (ensure_tunnel e tn w)) = next_pid w"
  "next_pid (ensure_dns_route e tn h w) = next_pid w"
  "next_pid (update_config e cf tn cr h p w) = next_pid w"
  "next_pid (restart_existing e tn w) = next_pid w"
  by (simp_all add: ensure_tunnel_def ensure_dns_route_def update_config_def restart_existing_def
        say_def call_def sleep_def kill_keeps_next_pid Let_def split: option.splits)

lemma named_success_record:
  assumes "fst (start_cloudflare_named e p n w) = Inr url"
    and "json_plain n" and "json_integer p"
    and "json_plain (get_machine_name e)" and "json_plain (CLOUDFLARE_TUNNEL_DOMAIN e)"
    and "json_plain (CLOUDFLARE_TUNNEL_NAME e)"
    and "next_pid w < 10 ^ 15"
  shows "\<exists>text kvs. files (snd (start_cloudflare_named e p n w)) (n @ ''.json'') = Some text
           \<and> json_object text = Read kvs"
proof -
  define w1 where "w1 = say LOG (''Starting Cloudflare named tunnel for port '' @ p @ '' -> ''
      @ derived_hostname e n @ ''...'') w"
  obtain created w2 where et: "ensure_tunnel e (tunnel_name_of e) w1 = (created, w2)"
    by (cases "ensure_tunnel e (tunnel_name_of e) w1")
  define w5 where "w5 = restart_existing e (tunnel_name_of e)
      (update_config e (config_file_of e) (tunnel_name_of e) (creds_file_of e) (derived_hostname e n) p
         (ensure_dns_route e (tunnel_name_of e) (derived_hostname e n) w2))"
  have "next_pid w2 = next_pid w"
    using stages_keep_next_pid(1) [of e "tunnel_name_of e" w1] et by (simp add: w1_def say_def)
  then have np: "next_pid w5 = next_pid w"
    by (simp add: w5_def stages_keep_next_pid)
  have ok: "CLOUDFLARE_TUNNEL_DOMAIN e \<noteq> '''' \<and> created \<and> tunnel_id_of e (tunnel_name_of e) \<noteq> ''''
                \<and> creds_present e (creds_file_of e)"
    using assms(1) et
    by (auto simp: start_cloudflare_named_def w1_def Let_def split: if_splits)
  then have eq: "start_cloudflare_named e p n w
      = run_tunnel e p n (tunnel_name_of e) (derived_hostname e n) (config_file_of e) w5"
    using et by (simp add: start_cloudflare_named_def w1_def w5_def Let_def)
  have alive: "alive_after_settle e \<and> ingress_accepted (configs w5 (config_file_of e))"
  proof (rule ccontr)
    assume "\<not> (alive_after_settle e \<and> ingress_accepted (configs w5 (config_file_of e)))"
    then have "fst (run_tunnel e p n (tunnel_name_of e) (derived_hostname e n) (config_file_of e) w5)
        = Inl Tunnel_process_died"
      by (simp add: run_tunnel_def spawn_def Let_def)
    with assms(1) eq show False by simp
  qed
  have ph: "json_plain (derived_hostname e n)"
    using assms(2,4,5) by (simp add: derived_hostname_def) (simp add: json_plain_def plain_char_def)
  have pt: "json_plain (tunnel_name_of e)"
    using assms(4,6) by (simp add: tunnel_name_of_def)
  have "json_object (named_record n p (''https://'' @ derived_hostname e n) (derived_hostname e n)
          (tunnel_name_of e) (next_pid w))
      = Read [(''method'', ''cloudflare_named''), (''name'', n), (''local_port'', p),
             (''url'', ''https://'' @ derived_hostname e n), (''hostname'', derived_hostname e n),
             (''tunnel_name'', tunnel_name_of e), (''pid'', dec (next_pid w))]"
    using assms(2,3) json_plain_https [OF ph] ph pt json_integer_dec [OF assms(7)]
    by (rule named_record_parses)
  moreover have "files (snd (start_cloudflare_named e p n w)) (n @ ''.json'')
      = Some (named_record n p (''https://'' @ derived_hostname e n) (derived_hostname e n)
          (tunnel_name_of e) (next_pid w))"
    using alive np
    by (simp add: eq run_tunnel_def spawn_def sleep_def say_def write_file_def Let_def)
  ultimately show ?thesis by blast
qed

text \<open>
  Start then stop, for the names the record format can hold.  When the dispatched launcher
  succeeds and the name, the machine name, the domain, the tunnel name and the URLs are
  plain texts (printable ASCII with no double quote and no backslash), the port a decimal
  numeral of at most 15 digits with no leading zero and the pid below \<^verbatim>\<open>10^15\<close>, a stop of the
  same name on a machine with jq returns status 0 and leaves no record file of that name,
  for each of the three backends.
\<close>

theorem start_then_stop_leaves_no_record:
  assumes "fst (dispatch e method local_port name w) = Inr url"
    and "json_plain name" and "json_integer local_port"
    and "json_plain (ts_self_dnsname e)" and "\<forall>i. json_plain (grep_url e i)"
    and "json_plain (get_machine_name e)" and "json_plain (CLOUDFLARE_TUNNEL_DOMAIN e)"
    and "json_plain (CLOUDFLARE_TUNNEL_NAME e)"
    and "next_pid w < 10 ^ 15"
    and "has_jq e'"
  shows "fst (stop_tunnel e' name (snd (dispatch e method local_port name w))) = Inr () \<and>
         files (snd (stop_tunnel e' name (snd (dispatch e method local_port name w)))) (name @ ''.json'') = None"
proof -
  have "\<exists>text kvs. files (snd (dispatch e method local_port name w)) (name @ ''.json'') = Some text
           \<and> json_object text = Read kvs"
  proof (cases "method = ''tailscale''")
    case True
    then have "dispatch e method local_port name w = start_tailscale_funnel e local_port name '''' w"
      by (simp add: dispatch_def)
    with assms(1) tailscale_success_record [of e local_port name w url] assms(2-4) show ?thesis
      by simp
  next
    case nt: False
    show ?thesis
    proof (cases "method = ''cloudflare'' \<or> method = ''cloudflare_named''")
      case True
      with nt have "dispatch e method local_port name w = start_cloudflare_named e local_port name w"
        by (simp add: dispatch_def)
      with assms(1) named_success_record [of e local_port name w url] assms(2,3,6-9) show ?thesis
        by simp
    next
      case nn: False
      show ?thesis
      proof (cases "method = ''cloudflare_quick'' \<or> method = ''quick''")
        case True
        with nt nn have "dispatch e method local_port name w = start_cloudflare_quick e local_port name w"
          by (simp add: dispatch_def)
        with assms(1) quick_success_record [of e local_port name w url] assms(2,3,5,9) show ?thesis
          by simp
      next
        case False
        with nt nn assms(1) show ?thesis
          by (simp add: dispatch_def)
      qed
    qed
  qed
  then obtain rec kvs where "files (snd (dispatch e method local_port name w)) (name @ ''.json'') = Some rec"
      "json_object rec = Read kvs"
    by blast
  with assms(10) show ?thesis by (intro stop_tunnel_parsed)
qed

theorem start_then_stop_leaves_no_record_witness:
  "fst (dispatch env0 ''quick'' ''3000'' ''demo'' world0) = Inr ''https://abc.trycloudflare.com'' \<and>
   json_plain ''demo'' \<and> json_integer ''3000'' \<and> has_jq env0 \<and>
   files (snd (dispatch env0 ''quick'' ''3000'' ''demo'' world0)) (''demo'' @ ''.json'') \<noteq> None \<and>
   fst (stop_tunnel env0 ''demo'' (snd (dispatch env0 ''quick'' ''3000'' ''demo'' world0))) = Inr () \<and>
   files (snd (stop_tunnel env0 ''demo'' (snd (dispatch env0 ''quick'' ''3000'' ''demo'' world0))))
     (''demo'' @ ''.json'') = None"
proof -
  have h1: "fst (dispatch env0 ''quick'' ''3000'' ''demo'' world0) = Inr ''https://abc.trycloudflare.com''"
    by (simp add: launcher_eval world_eval machine_eval)
  have h2: "json_plain ''demo''"
    by (simp add: json_plain_def plain_char_def)
  have h3: "json_integer ''3000''"
    by (simp add: json_integer_def is_digit_def)
  have h4: "json_plain (ts_self_dnsname env0)"
    by (simp add: env0_def json_plain_def plain_char_def)
  have h5: "\<forall>i. json_plain (grep_url env0 i)"
    by (simp add: env0_def json_plain_def plain_char_def)
  have h6: "json_plain (get_machine_name env0)"
    by (simp add: env0_def get_machine_name_def json_plain_def plain_char_def)
  have h7: "json_plain (CLOUDFLARE_TUNNEL_DOMAIN env0)"
    by (simp add: env0_def json_plain_def plain_char_def)
  have h8: "json_plain (CLOUDFLARE_TUNNEL_NAME env0)"
    by (simp add: env0_def json_plain_def plain_char_def)
  have h9: "next_pid world0 < 10 ^ 15"
    by (simp add: world0_def)
  have w: "files (snd (dispatch env0 ''quick'' ''3000'' ''demo'' world0)) (''demo'' @ ''.json'') \<noteq> None"
    by (simp add: launcher_eval world_eval machine_eval)
  have h10: "has_jq env0"
    by (simp add: env0_def)
  from start_then_stop_leaves_no_record [OF h1 h2 h3 h4 h5 h6 h7 h8 h9 h10] h1 h2 h3 h10 w
  show ?thesis by simp
qed


end
